theory Spec2Isabelle
  imports Complex_Main "HOL-Library.Word"
begin

section \<open>k4a\_mkv2image: the data the program works on\<close>

text \<open>
  The program (\<^verbatim>\<open>main.cpp\<close>, \<^verbatim>\<open>kinect.hpp\<close>, \<^verbatim>\<open>kinect.cpp\<close>) reads the captures of a
  recording one by one, copies the colour, depth and infrared image of each capture
  into one queue per image kind, and has one thread per recorded kind that empties its
  queue into numbered files. The model below keeps the members of \<^verbatim>\<open>class kinect\<close>
  under their own names; the libraries the class calls (Azure Kinect SDK, OpenCV,
  \<^verbatim>\<open>std::filesystem\<close>, \<^verbatim>\<open>std::ofstream\<close>) are the fields of a record \<open>world\<close>
  that every function takes as its first argument.
\<close>

subsection \<open>Images, captures, rasters\<close>

text \<open>
  A \<^verbatim>\<open>k4a::image\<close> is a handle that may be null (\<^verbatim>\<open>handle()\<close>), a buffer and a device
  timestamp. The colour buffer is read as bytes, the depth and infrared buffers as
  \<^verbatim>\<open>uint16_t\<close> (the source casts the buffer pointer). The timestamp is an \<^verbatim>\<open>int64_t\<close>
  on which no arithmetic is done, so it is an \<open>int\<close>.
\<close>

record 'a k4a_image =
  handle :: bool
  buffer :: "'a list"
  device_timestamp :: int

definition no_image :: "'a k4a_image" where
  "no_image = \<lparr>handle = False, buffer = [], device_timestamp = 0\<rparr>"

record k4a_capture =
  get_color_image :: "8 word k4a_image"
  get_depth_image :: "16 word k4a_image"
  get_ir_image :: "16 word k4a_image"

datatype k4a_image_format = K4A_IMAGE_FORMAT_COLOR_MJPG | K4A_IMAGE_FORMAT_COLOR_OTHER

record k4a_record_configuration =
  color_format :: k4a_image_format
  color_track_enabled :: bool
  depth_track_enabled :: bool
  ir_track_enabled :: bool

text \<open>
  Of the calibration the program reads the two resolutions only
  (\<^verbatim>\<open>calibration.color_camera_calibration.resolution_width\<close> and so on).
\<close>

record k4a_calibration =
  color_resolution_width :: int
  color_resolution_height :: int
  depth_resolution_width :: int
  depth_resolution_height :: int

text \<open>What \<^verbatim>\<open>k4a::playback::open\<close> gives when it does not throw.\<close>

record k4a_playback =
  get_record_configuration :: k4a_record_configuration
  get_calibration :: k4a_calibration
  captures :: "k4a_capture list"

text \<open>
  A \<^verbatim>\<open>cv::Mat\<close>: its size and its pixels, 8 or 16 bits each. \<^verbatim>\<open>cv::Mat(height, width,
  CV_16UC1, pointer)\<close> is a header over the buffer it is given.
\<close>

datatype pixels = CV_8U "8 word list" | CV_16UC1 "16 word list"

record mat =
  rows :: int
  cols :: int
  data :: pixels

definition Mat :: mat where
  "Mat = \<lparr>rows = 0, cols = 0, data = CV_8U []\<rparr>"

definition empty_mat :: "mat \<Rightarrow> bool" where
  "empty_mat m = (rows m = 0 \<or> cols m = 0 \<or> data m = CV_8U [] \<or> data m = CV_16UC1 [])"

datatype rtype = To_CV_8U

subsection \<open>Files\<close>

text \<open>
  The name of a written file, \<^verbatim>\<open>cv::format("%s/color/%06d_%011d.jpg", directory, index++,
  timestamp)\<close>, is kept as its four parts: the directory, the sequence number (the
  \<^verbatim>\<open>uint64_t index\<close> of the exporter), the timestamp and the extension.
\<close>

record file_name =
  folder :: string
  sequence :: "64 word"
  timestamp :: int
  extension :: string

text \<open>
  How a write ends. \<^verbatim>\<open>std::ofstream\<close> has no exception mask set, so a failed open or
  write only sets the stream's fail bit: \<open>Written\<close> or \<open>Failed\<close>. \<^verbatim>\<open>cv::imwrite\<close>
  returns a \<^verbatim>\<open>bool\<close> and may throw a \<^verbatim>\<open>cv::Exception\<close>: \<open>Raised\<close>.
\<close>

datatype write_result = Written | Failed | Raised

subsection \<open>The command line and the world outside\<close>

record path =
  parent_path :: string
  stem :: string
  path_extension :: string

definition generic_string :: "path \<Rightarrow> string" where
  "generic_string p = parent_path p @ ''/'' @ stem p @ path_extension p"

text \<open>
  What \<^verbatim>\<open>cv::CommandLineParser\<close> answers for the keys of \<^verbatim>\<open>initialize_parameter\<close>:
  \<^verbatim>\<open>has(key)\<close>, \<^verbatim>\<open>check()\<close> and \<^verbatim>\<open>get<T>(key)\<close>. The quality is read with
  \<^verbatim>\<open>get<int32_t>\<close>; only \<^verbatim>\<open>std::min\<close> and \<^verbatim>\<open>std::max\<close> are applied to it.
\<close>

record parser =
  has_help :: bool
  check :: bool
  has_input :: bool
  get_input :: path
  has_scaling :: bool
  get_scaling :: bool
  has_transform :: bool
  get_transform :: bool
  has_quality :: bool
  get_quality :: int
  has_display :: bool
  get_display :: bool

datatype error = Runtime_error string | K4a_error string

fun what :: "error \<Rightarrow> string" where
  "what (Runtime_error m) = m"
| "what (K4a_error m) = m"

record world =
  version :: string
  usage :: string
  parse_errors :: string
  ndebug :: bool
  is_regular_file :: "path \<Rightarrow> bool"
  file_exists :: "path \<Rightarrow> bool"
  create_directories :: "string \<Rightarrow> bool"
  playback_open :: "string \<Rightarrow> string + k4a_playback"
  depth_image_to_color_camera :: "16 word k4a_image \<Rightarrow> 16 word k4a_image"
  get_mat_color :: "8 word k4a_image \<Rightarrow> mat"
  get_mat_depth :: "16 word k4a_image \<Rightarrow> mat"
  convertTo :: "mat \<Rightarrow> rtype \<Rightarrow> rat \<Rightarrow> rat \<Rightarrow> mat"
  ofstream_write :: "file_name \<Rightarrow> 8 word list \<Rightarrow> bool"
  imwrite :: "file_name \<Rightarrow> mat \<Rightarrow> int list \<Rightarrow> write_result"
  key_presses :: "int list"

text \<open>
  \<^item> \<open>version\<close> is \<^verbatim>\<open>K4A_MKV2IMAGE_VERSION\<close> of the generated \<^verbatim>\<open>version.h\<close>; \<open>usage\<close>
    and \<open>parse_errors\<close> are what \<^verbatim>\<open>printMessage\<close> and \<^verbatim>\<open>printErrors\<close> print;
  \<^item> \<open>ndebug\<close> says whether \<^verbatim>\<open>assert\<close> is compiled out;
  \<^item> \<open>playback_open\<close> gives the message of the \<^verbatim>\<open>k4a::error\<close> it throws, or the
    opened recording;
  \<^item> \<open>depth_image_to_color_camera\<close> is the transformation made from the calibration;
    its result is an image, whose handle the source does not test before use;
  \<^item> \<open>get_mat_color\<close> and \<open>get_mat_depth\<close> are \<^verbatim>\<open>k4a::get_mat\<close> of \<^verbatim>\<open>util.h\<close>;
  \<^item> \<open>convertTo m t alpha beta\<close> is \<^verbatim>\<open>m.convertTo(m, t, alpha, beta)\<close>, OpenCV's
    \<^verbatim>\<open>saturate_cast<t>(alpha * pixel + beta)\<close> on every pixel (computed in floating
    point by OpenCV, hence not spelled out here);
  \<^item> \<open>ofstream_write name bytes\<close> says whether the stream opened on \<open>name\<close> took the
    bytes; \<open>imwrite name image params\<close> is \<^verbatim>\<open>cv::imwrite\<close>;
  \<^item> \<open>key_presses\<close> are the values the calls of \<^verbatim>\<open>cv::waitKey\<close> return, in order
    (\<open>-1\<close> once the list is used up).
\<close>

definition EXIT_SUCCESS :: int where
  "EXIT_SUCCESS = 0"

definition IMWRITE_JPEG_QUALITY :: int where
  "IMWRITE_JPEG_QUALITY = 1"

section \<open>The process\<close>

subsection \<open>Threads\<close>

text \<open>
  An exporter thread is absent (its track was not recorded), spawned and not yet
  running, at one of three places of its loop with its local variables, or finished:
  \<^item> \<open>At_while\<close>: about to read \<^verbatim>\<open>is_quit\<close> in the loop condition;
  \<^item> \<open>At_empty\<close>: \<^verbatim>\<open>is_quit\<close> was read true, about to call \<^verbatim>\<open>queue.empty()\<close>;
  \<^item> \<open>At_pop\<close>: in the loop body, about to call \<^verbatim>\<open>try_pop\<close>.
\<close>

datatype 'l exporter = Absent | Spawned | At_while 'l | At_empty 'l | At_pop 'l | Finished

text \<open>The locals of \<^verbatim>\<open>export_depth\<close> and \<^verbatim>\<open>export_infrared\<close>.\<close>

record raster_locals =
  index :: "64 word"
  width :: int
  height :: int

text \<open>
  The main thread is in the loop of \<^verbatim>\<open>run\<close>, or in \<^verbatim>\<open>finalize\<close> (called by the
  destructor once \<^verbatim>\<open>run\<close> has returned): about to set \<^verbatim>\<open>is_quit\<close>, then joining the
  three threads in turn; \<open>Returned\<close> once \<^verbatim>\<open>main\<close> has returned.
\<close>

datatype main_thread = In_run | In_finalize | Join_color | Join_depth | Join_infrared | Returned

datatype status = Running | Exited int | Aborted

datatype thread_id = Main_thread | Color_thread | Depth_thread | Infrared_thread

subsection \<open>The state\<close>

text \<open>The options and what is fixed once the constructor has run.\<close>

record options =
  mkv_file :: path
  directory :: string
  params :: "int list"
  is_scaling :: bool
  is_transform :: bool
  is_show :: bool
  record_configuration :: k4a_record_configuration
  calibration :: k4a_calibration
  is_color :: bool
  is_depth :: bool
  is_infrared :: bool

text \<open>
  The members of \<^verbatim>\<open>class kinect\<close> that change while the program runs, and around them
  the process: the position in the recording (\<open>playback\<close> holds the captures still to
  come, \<open>played\<close> those already returned by \<^verbatim>\<open>get_next_capture\<close>), the keys that
  \<^verbatim>\<open>cv::waitKey\<close> will return, the windows shown, what was printed, and for each image
  kind every write the exporter made, in order, with its name, what was written and how
  the write ended.
\<close>

record process =
  opt :: options
  playback :: "k4a_capture list"
  played :: "k4a_capture list"
  color_image :: "8 word k4a_image"
  depth_image :: "16 word k4a_image"
  infrared_image :: "16 word k4a_image"
  transformed_depth_image :: "16 word k4a_image"
  color :: mat
  depth :: mat
  infrared :: mat
  transformed_depth :: mat
  is_quit :: bool
  color_thread :: "64 word exporter"
  depth_thread :: "raster_locals exporter"
  infrared_thread :: "raster_locals exporter"
  color_queue :: "(8 word list \<times> int) list"
  depth_queue :: "(16 word list \<times> int) list"
  infrared_queue :: "(16 word list \<times> int) list"
  main_thread :: main_thread
  status :: status
  stdout :: "string list"
  keys :: "int list"
  windows :: "(string \<times> mat) list"
  color_files :: "(file_name \<times> 8 word list \<times> write_result) list"
  depth_files :: "(file_name \<times> mat \<times> write_result) list"
  infrared_files :: "(file_name \<times> mat \<times> int list \<times> write_result) list"

section \<open>Start-up: the constructor\<close>

text \<open>
  A function of the constructor returns the exception it throws, if any, and the state
  it leaves. \<^verbatim>\<open>std::exit\<close> is a state whose \<open>status\<close> is \<open>Exited\<close>.
\<close>

definition options0 :: options where
  "options0 =
     \<lparr>mkv_file = \<lparr>parent_path = [], stem = [], path_extension = []\<rparr>, directory = [],
      params = [], is_scaling = False, is_transform = False, is_show = False,
      record_configuration =
        \<lparr>color_format = K4A_IMAGE_FORMAT_COLOR_OTHER, color_track_enabled = False,
         depth_track_enabled = False, ir_track_enabled = False\<rparr>,
      calibration =
        \<lparr>color_resolution_width = 0, color_resolution_height = 0,
         depth_resolution_width = 0, depth_resolution_height = 0\<rparr>,
      is_color = False, is_depth = False, is_infrared = False\<rparr>"

text \<open>
  The state the constructor starts from: \<^verbatim>\<open>is_quit( true )\<close>, \<^verbatim>\<open>is_color( false )\<close>,
  \<^verbatim>\<open>is_depth( false )\<close>, \<^verbatim>\<open>is_infrared( false )\<close>, no thread, empty queues.
\<close>

definition process0 :: "world \<Rightarrow> process" where
  "process0 w =
     \<lparr>opt = options0, playback = [], played = [],
      color_image = no_image, depth_image = no_image, infrared_image = no_image,
      transformed_depth_image = no_image,
      color = Mat, depth = Mat, infrared = Mat, transformed_depth = Mat,
      is_quit = True,
      color_thread = Absent, depth_thread = Absent, infrared_thread = Absent,
      color_queue = [], depth_queue = [], infrared_queue = [],
      main_thread = In_run, status = Running, stdout = [], keys = key_presses w,
      windows = [], color_files = [], depth_files = [], infrared_files = []\<rparr>"

definition clamp_quality :: "int \<Rightarrow> int" where
  "clamp_quality q = min (max 0 q) 100"

definition initialize_parameter :: "world \<Rightarrow> parser \<Rightarrow> process \<Rightarrow> error option \<times> process" where
  "initialize_parameter w p s =
     (if has_help p then
        (None, s\<lparr>stdout := stdout s @ [''k4a_mkv2image v'' @ version w, usage w],
                 status := Exited EXIT_SUCCESS\<rparr>)
      else if \<not> check p then
        (Some (Runtime_error ''failed command arguments''),
         s\<lparr>stdout := stdout s @ [parse_errors w]\<rparr>)
      else if \<not> has_input p then
        (Some (Runtime_error ''failed can't find input mkv file''), s)
      else if \<not> is_regular_file w (get_input p) \<or> path_extension (get_input p) \<noteq> ''.mkv'' then
        (Some (Runtime_error ''failed can't find input mkv file''),
         s\<lparr>opt := (opt s)\<lparr>mkv_file := get_input p\<rparr>\<rparr>)
      else
        (None,
         s\<lparr>opt := (opt s)
            \<lparr>mkv_file := get_input p,
             is_scaling := (if \<not> has_scaling p then False else get_scaling p),
             is_transform := (if \<not> has_transform p then False else get_transform p),
             params :=
               (if \<not> has_quality p then [IMWRITE_JPEG_QUALITY, 95]
                else [IMWRITE_JPEG_QUALITY, clamp_quality (get_quality p)]),
             is_show := (if \<not> has_display p then False else get_display p)\<rparr>\<rparr>))"

definition initialize_playback :: "world \<Rightarrow> process \<Rightarrow> error option \<times> process" where
  "initialize_playback w s =
     (if \<not> is_regular_file w (mkv_file (opt s)) \<or> \<not> file_exists w (mkv_file (opt s)) then
        (Some (K4a_error ''Failed to found file path!''), s)
      else
        (case playback_open w (generic_string (mkv_file (opt s))) of
           Inl m \<Rightarrow> (Some (K4a_error m), s)
         | Inr pb \<Rightarrow>
             (None,
              s\<lparr>playback := captures pb,
                opt := (opt s)
                  \<lparr>record_configuration := get_record_configuration pb,
                   calibration := get_calibration pb\<rparr>\<rparr>)))"

text \<open>The loop over \<^verbatim>\<open>names\<close>: the first sub directory that cannot be created.\<close>

fun create_sub_directories :: "world \<Rightarrow> string \<Rightarrow> string list \<Rightarrow> string option" where
  "create_sub_directories w dir [] = None"
| "create_sub_directories w dir (name # names) =
     (if \<not> create_directories w (dir @ ''/'' @ name) then Some name
      else create_sub_directories w dir names)"

definition initialize_save :: "world \<Rightarrow> process \<Rightarrow> error option \<times> process" where
  "initialize_save w s =
     (let dir = parent_path (mkv_file (opt s)) @ ''/'' @ stem (mkv_file (opt s));
          s1 = s\<lparr>opt := (opt s)\<lparr>directory := dir\<rparr>\<rparr>
      in if \<not> create_directories w dir then
           (Some (Runtime_error ''failed can't create root directory''), s1)
         else
           let rc = record_configuration (opt s1);
               names = (if color_track_enabled rc then [''color''] else [])
                     @ (if depth_track_enabled rc then [''depth''] else [])
                     @ (if ir_track_enabled rc then [''infrared''] else []);
               s2 = s1\<lparr>opt := (opt s1)
                      \<lparr>is_color := color_track_enabled rc,
                       is_depth := depth_track_enabled rc,
                       is_infrared := ir_track_enabled rc\<rparr>\<rparr>
           in case create_sub_directories w dir names of
                Some name \<Rightarrow>
                  (Some (Runtime_error (''failed can't create sub directory ('' @ name @ '')'')), s2)
              | None \<Rightarrow>
                  (None,
                   s2\<lparr>color_thread := (if is_color (opt s2) then Spawned else Absent),
                      depth_thread := (if is_depth (opt s2) then Spawned else Absent),
                      infrared_thread := (if is_infrared (opt s2) then Spawned else Absent)\<rparr>))"

definition initialize :: "world \<Rightarrow> parser \<Rightarrow> process \<Rightarrow> error option \<times> process" where
  "initialize w p s =
     (case initialize_parameter w p s of
        (Some e, s1) \<Rightarrow> (Some e, s1)
      | (None, s1) \<Rightarrow>
          if status s1 \<noteq> Running then (None, s1)
          else (case initialize_playback w s1 of
                  (Some e, s2) \<Rightarrow> (Some e, s2)
                | (None, s2) \<Rightarrow> initialize_save w s2))"

text \<open>
  \<^verbatim>\<open>main\<close> up to the call of \<^verbatim>\<open>run\<close>: the constructor; an exception it throws
  destroys the members set so far, is caught, its message printed, and \<^verbatim>\<open>main\<close>
  returns 0. Otherwise the process goes on
  with \<^verbatim>\<open>run\<close> in the main thread and the spawned exporters, one step at a time (below).
\<close>

definition main :: "world \<Rightarrow> parser \<Rightarrow> process" where
  "main w p =
     (case initialize w p (process0 w) of
        (Some e, s) \<Rightarrow>
          (process0 w)\<lparr>stdout := stdout s @ [what e], main_thread := Returned, status := Exited 0\<rparr>
      | (None, s) \<Rightarrow> s)"

section \<open>The main thread\<close>

subsection \<open>Update: read a capture, fill the queues\<close>

text \<open>
  \<^verbatim>\<open>update_frame\<close>: \<^verbatim>\<open>get_next_capture\<close> gives the next capture, or the recording is at
  its end and the function calls \<^verbatim>\<open>std::exit( EXIT_SUCCESS )\<close>. The member \<^verbatim>\<open>capture\<close>
  lives from here to the end of \<^verbatim>\<open>update\<close>; it is the value returned.
\<close>

definition update_frame :: "process \<Rightarrow> k4a_capture option \<times> process" where
  "update_frame s =
     (case playback s of
        [] \<Rightarrow> (None, s\<lparr>status := Exited EXIT_SUCCESS\<rparr>)
      | c # cs \<Rightarrow> (Some c, s\<lparr>playback := cs, played := played s @ [c]\<rparr>))"

definition update_color :: "k4a_capture \<Rightarrow> process \<Rightarrow> process" where
  "update_color capture s =
     (if \<not> is_color (opt s) then s
      else
        let s1 = s\<lparr>color_image := get_color_image capture\<rparr>
        in if \<not> handle (color_image s1) then s1
           else s1\<lparr>color_queue := color_queue s1 @
                      [(buffer (color_image s1), device_timestamp (color_image s1))]\<rparr>)"

definition update_depth :: "k4a_capture \<Rightarrow> process \<Rightarrow> process" where
  "update_depth capture s =
     (if \<not> is_depth (opt s) then s
      else
        let s1 = s\<lparr>depth_image := get_depth_image capture\<rparr>
        in if \<not> handle (depth_image s1) then s1
           else if is_transform (opt s1) then s1
           else s1\<lparr>depth_queue := depth_queue s1 @
                      [(buffer (depth_image s1), device_timestamp (depth_image s1))]\<rparr>)"

definition update_infrared :: "k4a_capture \<Rightarrow> process \<Rightarrow> process" where
  "update_infrared capture s =
     (if \<not> is_infrared (opt s) then s
      else
        let s1 = s\<lparr>infrared_image := get_ir_image capture\<rparr>
        in if \<not> handle (infrared_image s1) then s1
           else s1\<lparr>infrared_queue := infrared_queue s1 @
                      [(buffer (infrared_image s1), device_timestamp (infrared_image s1))]\<rparr>)"

definition update_transformation :: "world \<Rightarrow> process \<Rightarrow> process" where
  "update_transformation w s =
     (if \<not> handle (depth_image s) then s
      else
        let s1 = s\<lparr>transformed_depth_image := depth_image_to_color_camera w (depth_image s)\<rparr>
        in if \<not> is_transform (opt s1) then s1
           else s1\<lparr>depth_queue := depth_queue s1 @
                      [(buffer (transformed_depth_image s1), device_timestamp (depth_image s1))]\<rparr>)"

definition update :: "world \<Rightarrow> process \<Rightarrow> process" where
  "update w s =
     (case update_frame s of
        (None, s0) \<Rightarrow> s0
      | (Some capture, s0) \<Rightarrow>
          let s1 = update_color capture s0;
              s2 = update_depth capture s1;
              s3 = update_infrared capture s2
          in if is_transform (opt s3) then update_transformation w s3 else s3)"

subsection \<open>Draw and show: the preview\<close>

definition draw_color :: "world \<Rightarrow> process \<Rightarrow> process" where
  "draw_color w s =
     (if \<not> handle (color_image s) then s
      else (if is_show (opt s) then s\<lparr>color := get_mat_color w (color_image s)\<rparr> else s)
             \<lparr>color_image := no_image\<rparr>)"

definition draw_depth :: "world \<Rightarrow> process \<Rightarrow> process" where
  "draw_depth w s =
     (if \<not> handle (depth_image s) then s
      else (if is_show (opt s) then s\<lparr>depth := get_mat_depth w (depth_image s)\<rparr> else s)
             \<lparr>depth_image := no_image\<rparr>)"

definition draw_infrared :: "world \<Rightarrow> process \<Rightarrow> process" where
  "draw_infrared w s =
     (if \<not> handle (infrared_image s) then s
      else (if is_show (opt s) then s\<lparr>infrared := get_mat_depth w (infrared_image s)\<rparr> else s)
             \<lparr>infrared_image := no_image\<rparr>)"

definition draw_transformation :: "world \<Rightarrow> process \<Rightarrow> process" where
  "draw_transformation w s =
     (if \<not> handle (transformed_depth_image s) then s
      else (if is_show (opt s)
            then s\<lparr>transformed_depth := get_mat_depth w (transformed_depth_image s)\<rparr> else s)
             \<lparr>transformed_depth_image := no_image\<rparr>)"

definition draw :: "world \<Rightarrow> process \<Rightarrow> process" where
  "draw w s = draw_infrared w (draw_transformation w (draw_depth w (draw_color w s)))"

definition show_color :: "process \<Rightarrow> process" where
  "show_color s =
     (if empty_mat (color s) then s
      else s\<lparr>windows := windows s @ [(''color'', color s)]\<rparr>)"

definition show_depth :: "world \<Rightarrow> process \<Rightarrow> process" where
  "show_depth w s =
     (if empty_mat (depth s) then s
      else
        let s1 = s\<lparr>depth := convertTo w (depth s) To_CV_8U (- 255 / 5000) 255\<rparr>
        in s1\<lparr>windows := windows s1 @ [(''depth'', depth s1)]\<rparr>)"

definition show_infrared :: "world \<Rightarrow> process \<Rightarrow> process" where
  "show_infrared w s =
     (if empty_mat (infrared s) then s
      else
        let s1 = s\<lparr>infrared := convertTo w (infrared s) To_CV_8U (1 / 2) 0\<rparr>
        in s1\<lparr>windows := windows s1 @ [(''infrared'', infrared s1)]\<rparr>)"

definition show_transformation :: "world \<Rightarrow> process \<Rightarrow> process" where
  "show_transformation w s =
     (if empty_mat (transformed_depth s) then s
      else
        let s1 = s\<lparr>transformed_depth :=
                     convertTo w (transformed_depth s) To_CV_8U (- 255 / 5000) 255\<rparr>
        in s1\<lparr>windows := windows s1 @ [(''transformed depth'', transformed_depth s1)]\<rparr>)"

definition show_windows :: "world \<Rightarrow> process \<Rightarrow> process" where
  "show_windows w s =
     (if \<not> is_show (opt s) then s
      else
        let s1 = show_color s;
            s2 = (if \<not> is_transform (opt s1) then show_depth w s1 else show_transformation w s1)
        in show_infrared w s2)"

subsection \<open>Run, finalize\<close>

text \<open>\<^verbatim>\<open>cv::waitKey\<close>: the next key, or \<open>-1\<close>.\<close>

definition waitKey :: "process \<Rightarrow> int \<times> process" where
  "waitKey s = (case keys s of [] \<Rightarrow> (- 1, s) | k # ks \<Rightarrow> (k, s\<lparr>keys := ks\<rparr>))"

text \<open>
  One turn of the loop of \<^verbatim>\<open>run\<close>. After \<^verbatim>\<open>std::exit\<close> in \<^verbatim>\<open>update_frame\<close> nothing more
  happens. The key \<^verbatim>\<open>'q'\<close> (113) leaves the loop: \<^verbatim>\<open>run\<close> returns and the destructor
  calls \<^verbatim>\<open>finalize\<close>.
\<close>

definition run :: "world \<Rightarrow> process \<Rightarrow> process" where
  "run w s =
     (let s1 = update w s
      in if status s1 \<noteq> Running then s1
         else
           let s2 = show_windows w (draw w s1);
               (key, s3) = waitKey s2
           in if key = 113 then s3\<lparr>main_thread := In_finalize\<rparr> else s3)"

text \<open>
  \<^verbatim>\<open>finalize\<close> sets \<^verbatim>\<open>is_quit\<close> and joins the threads that are joinable, each join
  waiting for its thread to finish; then the windows are destroyed and \<^verbatim>\<open>main\<close>
  returns 0. A join that has to wait leaves the state as it is.
\<close>

definition joined :: "'l exporter \<Rightarrow> bool" where
  "joined t = (t = Absent \<or> t = Finished)"

definition main_step :: "world \<Rightarrow> process \<Rightarrow> process" where
  "main_step w s =
     (case main_thread s of
        In_run \<Rightarrow> run w s
      | In_finalize \<Rightarrow> s\<lparr>is_quit := True, main_thread := Join_color\<rparr>
      | Join_color \<Rightarrow> if joined (color_thread s) then s\<lparr>main_thread := Join_depth\<rparr> else s
      | Join_depth \<Rightarrow> if joined (depth_thread s) then s\<lparr>main_thread := Join_infrared\<rparr> else s
      | Join_infrared \<Rightarrow>
          if joined (infrared_thread s)
          then s\<lparr>windows := [], main_thread := Returned, status := Exited 0\<rparr> else s
      | Returned \<Rightarrow> s)"

section \<open>The exporter threads\<close>

text \<open>
  One step of \<^verbatim>\<open>export_color\<close>. The thread starts with the assertion on the colour
  format and \<^verbatim>\<open>is_quit = false\<close>. The loop condition \<^verbatim>\<open>!( is_quit && color_queue.empty() )\<close>
  reads \<^verbatim>\<open>is_quit\<close> and, only if that is true, the queue. The body pops; an empty queue
  yields and goes back to the condition; an entry is written in the same step, since the
  write touches nothing another thread reads.
\<close>

definition color_name :: "options \<Rightarrow> 64 word \<Rightarrow> int \<Rightarrow> file_name" where
  "color_name c i t =
     \<lparr>folder = directory c @ ''/color'', sequence = i, timestamp = t, extension = ''jpg''\<rparr>"

text \<open>
  The body of the loop once an entry \<open>d\<close> is popped: the stream is opened on the name
  made from \<^verbatim>\<open>index++\<close> and the timestamp, and the bytes are written to it. What is
  kept is the name, the bytes and how the write ended.
\<close>

definition color_write ::
  "world \<Rightarrow> options \<Rightarrow> 64 word \<Rightarrow> 8 word list \<times> int \<Rightarrow> file_name \<times> 8 word list \<times> write_result" where
  "color_write w c i d =
     (let name = color_name c i (snd d)
      in (name, fst d, if ofstream_write w name (fst d) then Written else Failed))"

definition export_color :: "world \<Rightarrow> process \<Rightarrow> process" where
  "export_color w s =
     (case color_thread s of
        Spawned \<Rightarrow>
          if \<not> ndebug w \<and> color_format (record_configuration (opt s)) \<noteq> K4A_IMAGE_FORMAT_COLOR_MJPG
          then s\<lparr>status := Aborted\<rparr>
          else s\<lparr>is_quit := False, color_thread := At_while 0\<rparr>
      | At_while i \<Rightarrow>
          if is_quit s then s\<lparr>color_thread := At_empty i\<rparr> else s\<lparr>color_thread := At_pop i\<rparr>
      | At_empty i \<Rightarrow>
          if color_queue s = [] then s\<lparr>color_thread := Finished\<rparr>
          else s\<lparr>color_thread := At_pop i\<rparr>
      | At_pop i \<Rightarrow>
          (case color_queue s of
             [] \<Rightarrow> s\<lparr>color_thread := At_while i\<rparr>
           | d # q \<Rightarrow>
               s\<lparr>color_queue := q,
                 color_files := color_files s @ [color_write w (opt s) i d],
                 color_thread := At_while (i + 1)\<rparr>)
      | _ \<Rightarrow> s)"

text \<open>
  One step of \<^verbatim>\<open>export_depth\<close>. Width and height are chosen when the thread starts. An
  exception of \<^verbatim>\<open>cv::imwrite\<close> leaves the thread function: \<^verbatim>\<open>std::terminate\<close>.
\<close>

definition depth_name :: "options \<Rightarrow> 64 word \<Rightarrow> int \<Rightarrow> file_name" where
  "depth_name c i t =
     \<lparr>folder = directory c @ ''/depth'', sequence = i, timestamp = t, extension = ''png''\<rparr>"

definition depth_raster :: "world \<Rightarrow> options \<Rightarrow> raster_locals \<Rightarrow> 16 word list \<Rightarrow> mat" where
  "depth_raster w c l b =
     (let depth = \<lparr>rows = height l, cols = width l, data = CV_16UC1 b\<rparr>
      in if is_scaling c then convertTo w depth To_CV_8U (- 255 / 5000) 255 else depth)"

text \<open>
  The body of the loop once an entry \<open>d\<close> is popped: the raster over the buffer, scaled
  if \<^verbatim>\<open>is_scaling\<close>, given to \<^verbatim>\<open>cv::imwrite\<close> under the name made from \<^verbatim>\<open>index++\<close>
  and the timestamp.
\<close>

definition depth_write ::
  "world \<Rightarrow> options \<Rightarrow> raster_locals \<Rightarrow> 16 word list \<times> int \<Rightarrow> file_name \<times> mat \<times> write_result" where
  "depth_write w c l d =
     (let depth = depth_raster w c l (fst d);
          name = depth_name c (index l) (snd d)
      in (name, depth, imwrite w name depth []))"

definition export_depth :: "world \<Rightarrow> process \<Rightarrow> process" where
  "export_depth w s =
     (case depth_thread s of
        Spawned \<Rightarrow>
          s\<lparr>is_quit := False,
            depth_thread := At_while
              \<lparr>index = 0,
               width = (if is_transform (opt s)
                        then color_resolution_width (calibration (opt s))
                        else depth_resolution_width (calibration (opt s))),
               height = (if is_transform (opt s)
                         then color_resolution_height (calibration (opt s))
                         else depth_resolution_height (calibration (opt s)))\<rparr>\<rparr>
      | At_while l \<Rightarrow>
          if is_quit s then s\<lparr>depth_thread := At_empty l\<rparr> else s\<lparr>depth_thread := At_pop l\<rparr>
      | At_empty l \<Rightarrow>
          if depth_queue s = [] then s\<lparr>depth_thread := Finished\<rparr>
          else s\<lparr>depth_thread := At_pop l\<rparr>
      | At_pop l \<Rightarrow>
          (case depth_queue s of
             [] \<Rightarrow> s\<lparr>depth_thread := At_while l\<rparr>
           | d # q \<Rightarrow>
               let f = depth_write w (opt s) l d;
                   s1 = s\<lparr>depth_queue := q,
                          depth_files := depth_files s @ [f],
                          depth_thread := At_while (l\<lparr>index := index l + 1\<rparr>)\<rparr>
               in if snd (snd f) = Raised then s1\<lparr>status := Aborted\<rparr> else s1)
      | _ \<Rightarrow> s)"

text \<open>One step of \<^verbatim>\<open>export_infrared\<close>: always scaled, written with \<^verbatim>\<open>params\<close>.\<close>

definition infrared_name :: "options \<Rightarrow> 64 word \<Rightarrow> int \<Rightarrow> file_name" where
  "infrared_name c i t =
     \<lparr>folder = directory c @ ''/infrared'', sequence = i, timestamp = t, extension = ''jpg''\<rparr>"

definition infrared_raster :: "world \<Rightarrow> raster_locals \<Rightarrow> 16 word list \<Rightarrow> mat" where
  "infrared_raster w l b =
     convertTo w \<lparr>rows = height l, cols = width l, data = CV_16UC1 b\<rparr> To_CV_8U (1 / 2) 0"

definition infrared_write ::
  "world \<Rightarrow> options \<Rightarrow> raster_locals \<Rightarrow> 16 word list \<times> int
     \<Rightarrow> file_name \<times> mat \<times> int list \<times> write_result" where
  "infrared_write w c l d =
     (let infrared = infrared_raster w l (fst d);
          name = infrared_name c (index l) (snd d)
      in (name, infrared, params c, imwrite w name infrared (params c)))"

definition export_infrared :: "world \<Rightarrow> process \<Rightarrow> process" where
  "export_infrared w s =
     (case infrared_thread s of
        Spawned \<Rightarrow>
          s\<lparr>is_quit := False,
            infrared_thread := At_while
              \<lparr>index = 0,
               width = depth_resolution_width (calibration (opt s)),
               height = depth_resolution_height (calibration (opt s))\<rparr>\<rparr>
      | At_while l \<Rightarrow>
          if is_quit s then s\<lparr>infrared_thread := At_empty l\<rparr>
          else s\<lparr>infrared_thread := At_pop l\<rparr>
      | At_empty l \<Rightarrow>
          if infrared_queue s = [] then s\<lparr>infrared_thread := Finished\<rparr>
          else s\<lparr>infrared_thread := At_pop l\<rparr>
      | At_pop l \<Rightarrow>
          (case infrared_queue s of
             [] \<Rightarrow> s\<lparr>infrared_thread := At_while l\<rparr>
           | d # q \<Rightarrow>
               let f = infrared_write w (opt s) l d;
                   s1 = s\<lparr>infrared_queue := q,
                          infrared_files := infrared_files s @ [f],
                          infrared_thread := At_while (l\<lparr>index := index l + 1\<rparr>)\<rparr>
               in if snd (snd (snd f)) = Raised then s1\<lparr>status := Aborted\<rparr> else s1)
      | _ \<Rightarrow> s)"

section \<open>Runs\<close>

text \<open>
  A step of the process is a step of one thread; once the process has exited or aborted
  no thread moves. A run is the steps of a schedule, from the state \<open>main\<close> leaves.
\<close>

definition step :: "world \<Rightarrow> thread_id \<Rightarrow> process \<Rightarrow> process" where
  "step w t s =
     (if status s \<noteq> Running then s
      else case t of
             Main_thread \<Rightarrow> main_step w s
           | Color_thread \<Rightarrow> export_color w s
           | Depth_thread \<Rightarrow> export_depth w s
           | Infrared_thread \<Rightarrow> export_infrared w s)"

fun exec :: "world \<Rightarrow> thread_id list \<Rightarrow> process \<Rightarrow> process" where
  "exec w [] s = s"
| "exec w (t # ts) s = exec w ts (step w t s)"

definition program :: "world \<Rightarrow> parser \<Rightarrow> thread_id list \<Rightarrow> process" where
  "program w p schedule = exec w schedule (main w p)"

section \<open>Example inputs\<close>

text \<open>
  A recording of captures with all three tracks, a world in which every library call
  succeeds, and a command line with every key given. The colour camera has 3 by 2
  pixels, the depth camera 2 by 1.
\<close>

definition image :: "'a list \<Rightarrow> int \<Rightarrow> 'a k4a_image" where
  "image b t = \<lparr>handle = True, buffer = b, device_timestamp = t\<rparr>"

definition capture_at :: "int \<Rightarrow> k4a_capture" where
  "capture_at t =
     \<lparr>get_color_image = image [255, 216] t,
      get_depth_image = image [1000, 2000] t,
      get_ir_image = image [300, 400] t\<rparr>"

definition recording :: "k4a_capture list \<Rightarrow> k4a_playback" where
  "recording cs =
     \<lparr>get_record_configuration =
        \<lparr>color_format = K4A_IMAGE_FORMAT_COLOR_MJPG, color_track_enabled = True,
         depth_track_enabled = True, ir_track_enabled = True\<rparr>,
      get_calibration =
        \<lparr>color_resolution_width = 3, color_resolution_height = 2,
         depth_resolution_width = 2, depth_resolution_height = 1\<rparr>,
      captures = cs\<rparr>"

definition color_only :: "k4a_capture list \<Rightarrow> k4a_playback" where
  "color_only cs =
     (recording cs)\<lparr>get_record_configuration :=
        \<lparr>color_format = K4A_IMAGE_FORMAT_COLOR_MJPG, color_track_enabled = True,
         depth_track_enabled = False, ir_track_enabled = False\<rparr>\<rparr>"

text \<open>
  A stand-in for \<^verbatim>\<open>convertTo\<close> to 8 bits, in exact arithmetic: every pixel \<open>p\<close> becomes
  \<open>alpha * p + beta\<close>, rounded and cut to the range from 0 to 255.
\<close>

definition saturate_cast_uchar :: "rat \<Rightarrow> 8 word" where
  "saturate_cast_uchar x = word_of_int (max 0 (min 255 (round x)))"

definition example_convertTo :: "mat \<Rightarrow> rtype \<Rightarrow> rat \<Rightarrow> rat \<Rightarrow> mat" where
  "example_convertTo m t alpha beta =
     m\<lparr>data := CV_8U
        (case data m of
           CV_8U x \<Rightarrow> map (\<lambda>p. saturate_cast_uchar (alpha * of_int (uint p) + beta)) x
         | CV_16UC1 x \<Rightarrow> map (\<lambda>p. saturate_cast_uchar (alpha * of_int (uint p) + beta)) x)\<rparr>"

definition example_world :: "k4a_playback \<Rightarrow> int list \<Rightarrow> world" where
  "example_world pb ks =
     \<lparr>version = ''1.0.0'', usage = ''usage'', parse_errors = ''errors'', ndebug = False,
      is_regular_file = (\<lambda>f. True), file_exists = (\<lambda>f. True),
      create_directories = (\<lambda>d. True),
      playback_open = (\<lambda>f. Inr pb),
      depth_image_to_color_camera = (\<lambda>d. image (buffer d @ buffer d @ buffer d) 0),
      get_mat_color = (\<lambda>i. \<lparr>rows = 2, cols = 3, data = CV_8U (buffer i)\<rparr>),
      get_mat_depth = (\<lambda>i. \<lparr>rows = 1, cols = 2, data = CV_16UC1 (buffer i)\<rparr>),
      convertTo = example_convertTo,
      ofstream_write = (\<lambda>n b. True),
      imwrite = (\<lambda>n m ps. Written),
      key_presses = ks\<rparr>"

definition example_parser :: parser where
  "example_parser =
     \<lparr>has_help = False, check = True, has_input = True,
      get_input = \<lparr>parent_path = ''/data'', stem = ''session'', path_extension = ''.mkv''\<rparr>,
      has_scaling = True, get_scaling = False,
      has_transform = True, get_transform = False,
      has_quality = True, get_quality = 95,
      has_display = True, get_display = False\<rparr>"

text \<open>
  Two worlds that differ from it in one call: a transformation that gives an image
  without handle, and a stream that fails on the file with sequence number 0.
\<close>

definition no_transform_world :: "k4a_playback \<Rightarrow> int list \<Rightarrow> world" where
  "no_transform_world pb ks = (example_world pb ks)\<lparr>depth_image_to_color_camera := (\<lambda>d. no_image)\<rparr>"

definition first_write_fails_world :: "k4a_playback \<Rightarrow> int list \<Rightarrow> world" where
  "first_write_fails_world pb ks = (example_world pb ks)\<lparr>ofstream_write := (\<lambda>n b. sequence n \<noteq> 0)\<rparr>"

section \<open>What the queues receive and what the exporters write\<close>

definition color_entries :: "options \<Rightarrow> k4a_capture list \<Rightarrow> (8 word list \<times> int) list" where
  "color_entries c cs =
     (if is_color c
      then map (\<lambda>k. (buffer (get_color_image k), device_timestamp (get_color_image k)))
             (filter (\<lambda>k. handle (get_color_image k)) cs)
      else [])"

definition depth_entries :: "world \<Rightarrow> options \<Rightarrow> k4a_capture list \<Rightarrow> (16 word list \<times> int) list" where
  "depth_entries w c cs =
     (if is_depth c
      then map (\<lambda>k. (if is_transform c
                      then buffer (depth_image_to_color_camera w (get_depth_image k))
                      else buffer (get_depth_image k),
                      device_timestamp (get_depth_image k)))
             (filter (\<lambda>k. handle (get_depth_image k)) cs)
      else [])"

definition infrared_entries :: "options \<Rightarrow> k4a_capture list \<Rightarrow> (16 word list \<times> int) list" where
  "infrared_entries c cs =
     (if is_infrared c
      then map (\<lambda>k. (buffer (get_ir_image k), device_timestamp (get_ir_image k)))
             (filter (\<lambda>k. handle (get_ir_image k)) cs)
      else [])"

definition depth_locals :: "options \<Rightarrow> nat \<Rightarrow> raster_locals" where
  "depth_locals c i =
     \<lparr>index = of_nat i,
      width = (if is_transform c then color_resolution_width (calibration c)
               else depth_resolution_width (calibration c)),
      height = (if is_transform c then color_resolution_height (calibration c)
                else depth_resolution_height (calibration c))\<rparr>"

definition infrared_locals :: "options \<Rightarrow> nat \<Rightarrow> raster_locals" where
  "infrared_locals c i =
     \<lparr>index = of_nat i,
      width = depth_resolution_width (calibration c),
      height = depth_resolution_height (calibration c)\<rparr>"

fun at_place :: "'l exporter \<Rightarrow> (nat \<Rightarrow> 'l) \<Rightarrow> nat \<Rightarrow> bool" where
  "at_place Absent f n = (n = 0)"
| "at_place Spawned f n = (n = 0)"
| "at_place (At_while l) f n = (l = f n)"
| "at_place (At_empty l) f n = (l = f n)"
| "at_place (At_pop l) f n = (l = f n)"
| "at_place Finished f n = True"

definition log_inv :: "(nat \<Rightarrow> 'e \<Rightarrow> 'f) \<Rightarrow> 'e list \<Rightarrow> 'e list \<Rightarrow> 'f list \<Rightarrow> bool" where
  "log_inv f P q fs =
     (length fs \<le> length P \<and> drop (length fs) P = q \<and> map2 f [0..<length fs] P = fs)"

definition color_inv :: "world \<Rightarrow> process \<Rightarrow> bool" where
  "color_inv w s =
     (log_inv (\<lambda>i. color_write w (opt s) (of_nat i)) (color_entries (opt s) (played s))
        (color_queue s) (color_files s)
      \<and> at_place (color_thread s) of_nat (length (color_files s)))"

definition depth_inv :: "world \<Rightarrow> process \<Rightarrow> bool" where
  "depth_inv w s =
     (log_inv (\<lambda>i. depth_write w (opt s) (depth_locals (opt s) i)) (depth_entries w (opt s) (played s))
        (depth_queue s) (depth_files s)
      \<and> at_place (depth_thread s) (depth_locals (opt s)) (length (depth_files s))
      \<and> \<not> handle (depth_image s))"

definition infrared_inv :: "world \<Rightarrow> process \<Rightarrow> bool" where
  "infrared_inv w s =
     (log_inv (\<lambda>i. infrared_write w (opt s) (infrared_locals (opt s) i)) (infrared_entries (opt s) (played s))
        (infrared_queue s) (infrared_files s)
      \<and> at_place (infrared_thread s) (infrared_locals (opt s)) (length (infrared_files s)))"

text \<open>
  Teardown. \<open>tearing_down\<close>: \<^verbatim>\<open>finalize\<close> has set \<^verbatim>\<open>is_quit\<close>. An exporter that runs has
  set \<^verbatim>\<open>is_quit\<close> to false itself, so it reads true only after \<^verbatim>\<open>finalize\<close> wrote it;
  it finishes only on an empty queue, and by then the main thread fills no queue.
\<close>

definition tearing_down :: "main_thread \<Rightarrow> bool" where
  "tearing_down m = (m \<noteq> In_run \<and> m \<noteq> In_finalize)"

fun leaves_late :: "bool \<Rightarrow> bool \<Rightarrow> 'l exporter \<Rightarrow> 'e list \<Rightarrow> bool" where
  "leaves_late quit down Absent q = True"
| "leaves_late quit down Spawned q = True"
| "leaves_late quit down (At_while l) q = (\<not> quit \<or> down)"
| "leaves_late quit down (At_empty l) q = down"
| "leaves_late quit down (At_pop l) q = (\<not> quit \<or> down)"
| "leaves_late quit down Finished q = (down \<and> q = [])"

fun joins_done :: "main_thread \<Rightarrow> bool \<Rightarrow> bool \<Rightarrow> bool \<Rightarrow> bool" where
  "joins_done Join_depth c d i = c"
| "joins_done Join_infrared c d i = (c \<and> d)"
| "joins_done Returned c d i = (c \<and> d \<and> i)"
| "joins_done m c d i = True"

definition quit_inv :: "process \<Rightarrow> bool" where
  "quit_inv s =
     (leaves_late (is_quit s) (tearing_down (main_thread s)) (color_thread s) (color_queue s)
      \<and> leaves_late (is_quit s) (tearing_down (main_thread s)) (depth_thread s) (depth_queue s)
      \<and> leaves_late (is_quit s) (tearing_down (main_thread s)) (infrared_thread s) (infrared_queue s)
      \<and> joins_done (main_thread s) (joined (color_thread s)) (joined (depth_thread s))
           (joined (infrared_thread s))
      \<and> (color_thread s = Absent) = (\<not> is_color (opt s))
      \<and> (depth_thread s = Absent) = (\<not> is_depth (opt s))
      \<and> (infrared_thread s = Absent) = (\<not> is_infrared (opt s)))"

text \<open>The state \<open>main\<close> leaves: nothing read, queued or written yet.\<close>

definition fresh :: "process \<Rightarrow> bool" where
  "fresh s =
     (played s = [] \<and> color_queue s = [] \<and> depth_queue s = [] \<and> infrared_queue s = []
      \<and> color_files s = [] \<and> depth_files s = [] \<and> infrared_files s = []
      \<and> \<not> handle (depth_image s)
      \<and> color_thread s = (if is_color (opt s) then Spawned else Absent)
      \<and> depth_thread s = (if is_depth (opt s) then Spawned else Absent)
      \<and> infrared_thread s = (if is_infrared (opt s) then Spawned else Absent)
      \<and> main_thread s = In_run
      \<and> (status s = Running \<or> status s = Exited 0))"

text \<open>All four together, along a run.\<close>

definition invariant :: "world \<Rightarrow> process \<Rightarrow> bool" where
  "invariant w s = (color_inv w s \<and> depth_inv w s \<and> infrared_inv w s \<and> quit_inv s)"

text \<open>
  What the claims speak of. The names of the files an exporter did write (the writes
  that ended well), in the order written. The device clock of a recording: within each
  image kind the timestamps of the images present do not decrease. And the depth image
  the specification describes: the raster rescaled to 8 bits by the affine mapping
  \<open>pixel * (-255/5000) + 255\<close> when scaling is enabled, the raw raster otherwise.
\<close>

definition color_names :: "process \<Rightarrow> file_name list" where
  "color_names s = map fst (filter (\<lambda>f. snd (snd f) = Written) (color_files s))"

definition depth_names :: "process \<Rightarrow> file_name list" where
  "depth_names s = map fst (filter (\<lambda>f. snd (snd f) = Written) (depth_files s))"

definition infrared_names :: "process \<Rightarrow> file_name list" where
  "infrared_names s = map fst (filter (\<lambda>f. snd (snd (snd f)) = Written) (infrared_files s))"

definition device_clock_ascends :: "k4a_capture list \<Rightarrow> bool" where
  "device_clock_ascends cs =
     (sorted (map (\<lambda>k. device_timestamp (get_color_image k))
                (filter (\<lambda>k. handle (get_color_image k)) cs))
      \<and> sorted (map (\<lambda>k. device_timestamp (get_depth_image k))
                  (filter (\<lambda>k. handle (get_depth_image k)) cs))
      \<and> sorted (map (\<lambda>k. device_timestamp (get_ir_image k))
                  (filter (\<lambda>k. handle (get_ir_image k)) cs)))"

definition rescaled_or_raw :: "world \<Rightarrow> bool \<Rightarrow> mat \<Rightarrow> mat" where
  "rescaled_or_raw w scaling m = (if scaling then convertTo w m To_CV_8U (- 255 / 5000) 255 else m)"

section \<open>Lemmas\<close>

lemma update_color_keeps [simp]:
  "opt (update_color c s) = opt s"
  "playback (update_color c s) = playback s"
  "played (update_color c s) = played s"
  "depth_image (update_color c s) = depth_image s"
  "is_quit (update_color c s) = is_quit s"
  "color_thread (update_color c s) = color_thread s"
  "depth_thread (update_color c s) = depth_thread s"
  "infrared_thread (update_color c s) = infrared_thread s"
  "depth_queue (update_color c s) = depth_queue s"
  "infrared_queue (update_color c s) = infrared_queue s"
  "main_thread (update_color c s) = main_thread s"
  "status (update_color c s) = status s"
  "stdout (update_color c s) = stdout s"
  "keys (update_color c s) = keys s"
  "color_files (update_color c s) = color_files s"
  "depth_files (update_color c s) = depth_files s"
  "infrared_files (update_color c s) = infrared_files s"
  by (simp_all add: update_color_def Let_def)

lemma update_depth_keeps [simp]:
  "opt (update_depth c s) = opt s"
  "playback (update_depth c s) = playback s"
  "played (update_depth c s) = played s"
  "is_quit (update_depth c s) = is_quit s"
  "color_thread (update_depth c s) = color_thread s"
  "depth_thread (update_depth c s) = depth_thread s"
  "infrared_thread (update_depth c s) = infrared_thread s"
  "color_queue (update_depth c s) = color_queue s"
  "infrared_queue (update_depth c s) = infrared_queue s"
  "main_thread (update_depth c s) = main_thread s"
  "status (update_depth c s) = status s"
  "stdout (update_depth c s) = stdout s"
  "keys (update_depth c s) = keys s"
  "color_files (update_depth c s) = color_files s"
  "depth_files (update_depth c s) = depth_files s"
  "infrared_files (update_depth c s) = infrared_files s"
  by (simp_all add: update_depth_def Let_def)

lemma update_infrared_keeps [simp]:
  "opt (update_infrared c s) = opt s"
  "playback (update_infrared c s) = playback s"
  "played (update_infrared c s) = played s"
  "depth_image (update_infrared c s) = depth_image s"
  "is_quit (update_infrared c s) = is_quit s"
  "color_thread (update_infrared c s) = color_thread s"
  "depth_thread (update_infrared c s) = depth_thread s"
  "infrared_thread (update_infrared c s) = infrared_thread s"
  "color_queue (update_infrared c s) = color_queue s"
  "depth_queue (update_infrared c s) = depth_queue s"
  "main_thread (update_infrared c s) = main_thread s"
  "status (update_infrared c s) = status s"
  "stdout (update_infrared c s) = stdout s"
  "keys (update_infrared c s) = keys s"
  "color_files (update_infrared c s) = color_files s"
  "depth_files (update_infrared c s) = depth_files s"
  "infrared_files (update_infrared c s) = infrared_files s"
  by (simp_all add: update_infrared_def Let_def)

lemma update_transformation_keeps [simp]:
  "opt (update_transformation w s) = opt s"
  "playback (update_transformation w s) = playback s"
  "played (update_transformation w s) = played s"
  "depth_image (update_transformation w s) = depth_image s"
  "is_quit (update_transformation w s) = is_quit s"
  "color_thread (update_transformation w s) = color_thread s"
  "depth_thread (update_transformation w s) = depth_thread s"
  "infrared_thread (update_transformation w s) = infrared_thread s"
  "color_queue (update_transformation w s) = color_queue s"
  "infrared_queue (update_transformation w s) = infrared_queue s"
  "main_thread (update_transformation w s) = main_thread s"
  "status (update_transformation w s) = status s"
  "stdout (update_transformation w s) = stdout s"
  "keys (update_transformation w s) = keys s"
  "color_files (update_transformation w s) = color_files s"
  "depth_files (update_transformation w s) = depth_files s"
  "infrared_files (update_transformation w s) = infrared_files s"
  by (simp_all add: update_transformation_def Let_def)

lemma draw_depth_keeps [simp]:
  "opt (draw_depth w s) = opt s"
  "playback (draw_depth w s) = playback s"
  "played (draw_depth w s) = played s"
  "is_quit (draw_depth w s) = is_quit s"
  "color_thread (draw_depth w s) = color_thread s"
  "depth_thread (draw_depth w s) = depth_thread s"
  "infrared_thread (draw_depth w s) = infrared_thread s"
  "color_queue (draw_depth w s) = color_queue s"
  "depth_queue (draw_depth w s) = depth_queue s"
  "infrared_queue (draw_depth w s) = infrared_queue s"
  "main_thread (draw_depth w s) = main_thread s"
  "status (draw_depth w s) = status s"
  "stdout (draw_depth w s) = stdout s"
  "keys (draw_depth w s) = keys s"
  "color_files (draw_depth w s) = color_files s"
  "depth_files (draw_depth w s) = depth_files s"
  "infrared_files (draw_depth w s) = infrared_files s"
  by (simp_all add: draw_depth_def)

lemma draw_core [simp]:
  "opt (draw w s) = opt s" "playback (draw w s) = playback s" "played (draw w s) = played s"
  "is_quit (draw w s) = is_quit s" "color_thread (draw w s) = color_thread s"
  "depth_thread (draw w s) = depth_thread s" "infrared_thread (draw w s) = infrared_thread s"
  "color_queue (draw w s) = color_queue s" "depth_queue (draw w s) = depth_queue s"
  "infrared_queue (draw w s) = infrared_queue s" "main_thread (draw w s) = main_thread s"
  "status (draw w s) = status s" "stdout (draw w s) = stdout s" "keys (draw w s) = keys s"
  "color_files (draw w s) = color_files s" "depth_files (draw w s) = depth_files s"
  "infrared_files (draw w s) = infrared_files s"
  by (simp_all add: draw_def draw_color_def draw_infrared_def draw_transformation_def)

lemma draw_depth_image [simp]: "\<not> handle (depth_image (draw w s))"
  by (simp add: draw_def draw_color_def draw_infrared_def draw_transformation_def
      draw_depth_def no_image_def)

lemma show_windows_core [simp]:
  "opt (show_windows w s) = opt s" "playback (show_windows w s) = playback s"
  "played (show_windows w s) = played s" "depth_image (show_windows w s) = depth_image s"
  "is_quit (show_windows w s) = is_quit s" "color_thread (show_windows w s) = color_thread s"
  "depth_thread (show_windows w s) = depth_thread s"
  "infrared_thread (show_windows w s) = infrared_thread s"
  "color_queue (show_windows w s) = color_queue s" "depth_queue (show_windows w s) = depth_queue s"
  "infrared_queue (show_windows w s) = infrared_queue s"
  "main_thread (show_windows w s) = main_thread s"
  "status (show_windows w s) = status s" "stdout (show_windows w s) = stdout s"
  "keys (show_windows w s) = keys s"
  "color_files (show_windows w s) = color_files s" "depth_files (show_windows w s) = depth_files s"
  "infrared_files (show_windows w s) = infrared_files s"
  by (simp_all add: show_windows_def show_color_def show_depth_def show_infrared_def
      show_transformation_def Let_def)

lemma entries_append:
  "color_entries c (xs @ ys) = color_entries c xs @ color_entries c ys"
  "depth_entries w c (xs @ ys) = depth_entries w c xs @ depth_entries w c ys"
  "infrared_entries c (xs @ ys) = infrared_entries c xs @ infrared_entries c ys"
  by (simp_all add: color_entries_def depth_entries_def infrared_entries_def)

lemma update_color_queue [simp]:
  "color_queue (update_color c s) = color_queue s @ color_entries (opt s) [c]"
  by (simp add: update_color_def color_entries_def Let_def)

lemma update_infrared_queue [simp]:
  "infrared_queue (update_infrared c s) = infrared_queue s @ infrared_entries (opt s) [c]"
  by (simp add: update_infrared_def infrared_entries_def Let_def)

lemma update_depth_image [simp]:
  "depth_image (update_depth c s) = (if is_depth (opt s) then get_depth_image c else depth_image s)"
  by (simp add: update_depth_def Let_def)

lemma update_depth_queue [simp]:
  "depth_queue (update_depth c s) =
     depth_queue s @
       (if is_depth (opt s) \<and> handle (get_depth_image c) \<and> \<not> is_transform (opt s)
        then [(buffer (get_depth_image c), device_timestamp (get_depth_image c))]
        else [])"
  by (simp add: update_depth_def Let_def)

lemma update_transformation_queue [simp]:
  "depth_queue (update_transformation w s) =
     depth_queue s @
       (if handle (depth_image s) \<and> is_transform (opt s)
        then [(buffer (depth_image_to_color_camera w (depth_image s)),
               device_timestamp (depth_image s))]
        else [])"
  by (simp add: update_transformation_def Let_def)

lemma update_end [simp]: "playback s = [] \<Longrightarrow> update w s = s\<lparr>status := Exited EXIT_SUCCESS\<rparr>"
  by (simp add: update_def update_frame_def)

lemma update_next:
  assumes "playback s = c # cs"
  shows "playback (update w s) = cs" "played (update w s) = played s @ [c]"
    "opt (update w s) = opt s" "is_quit (update w s) = is_quit s"
    "color_thread (update w s) = color_thread s" "depth_thread (update w s) = depth_thread s"
    "infrared_thread (update w s) = infrared_thread s" "main_thread (update w s) = main_thread s"
    "status (update w s) = status s" "stdout (update w s) = stdout s" "keys (update w s) = keys s"
    "color_files (update w s) = color_files s" "depth_files (update w s) = depth_files s"
    "infrared_files (update w s) = infrared_files s"
    "color_queue (update w s) = color_queue s @ color_entries (opt s) [c]"
    "infrared_queue (update w s) = infrared_queue s @ infrared_entries (opt s) [c]"
    "\<not> handle (depth_image s) \<Longrightarrow>
       depth_queue (update w s) = depth_queue s @ depth_entries w (opt s) [c]"
  using assms
  by (simp_all add: update_def update_frame_def Let_def depth_entries_def)

lemma run_end: "playback s = [] \<Longrightarrow> run w s = s\<lparr>status := Exited EXIT_SUCCESS\<rparr>"
  by (simp add: run_def)

lemma run_next:
  assumes "playback s = c # cs" and "status s = Running"
  shows "playback (run w s) = cs" "played (run w s) = played s @ [c]"
    "opt (run w s) = opt s" "is_quit (run w s) = is_quit s"
    "color_thread (run w s) = color_thread s" "depth_thread (run w s) = depth_thread s"
    "infrared_thread (run w s) = infrared_thread s"
    "main_thread (run w s) =
       (if (case keys s of [] \<Rightarrow> - 1 | k # ks \<Rightarrow> k) = 113 then In_finalize else main_thread s)"
    "status (run w s) = Running" "stdout (run w s) = stdout s" "keys (run w s) = tl (keys s)"
    "color_files (run w s) = color_files s" "depth_files (run w s) = depth_files s"
    "infrared_files (run w s) = infrared_files s"
    "color_queue (run w s) = color_queue s @ color_entries (opt s) [c]"
    "infrared_queue (run w s) = infrared_queue s @ infrared_entries (opt s) [c]"
    "\<not> handle (depth_image s) \<Longrightarrow>
       depth_queue (run w s) = depth_queue s @ depth_entries w (opt s) [c]"
    "\<not> handle (depth_image (run w s))"
  using assms
  by (simp_all add: run_def Let_def update_next waitKey_def split: list.splits)

lemma drop_eq_Cons:
  assumes "drop n P = d # q"
  shows "n < length P" and "P ! n = d" and "drop (Suc n) P = q"
proof -
  show n: "n < length P"
    using assms by (cases "n < length P") simp_all
  from Cons_nth_drop_Suc [OF n] assms show "P ! n = d" and "drop (Suc n) P = q"
    by simp_all
qed

lemma zip_take_right: "zip xs (take (length xs) ys) = zip xs ys"
proof (induction xs arbitrary: ys)
  case Nil
  show ?case by simp
next
  case (Cons x xs)
  then show ?case by (cases ys) simp_all
qed

lemma map2_upt_Suc:
  assumes "n < length P"
  shows "map2 f [0..<Suc n] P = map2 f [0..<n] P @ [f n (P ! n)]"
proof -
  have "zip [0..<Suc n] P = zip [0..<Suc n] (take (length [0..<Suc n]) P)"
    by (simp only: zip_take_right)
  also have "\<dots> = zip ([0..<n] @ [n]) (take n P @ [P ! n])"
    using assms by (simp add: take_Suc_conv_app_nth)
  also have "\<dots> = zip [0..<n] (take (length [0..<n]) P) @ [(n, P ! n)]"
    using assms by simp
  also have "\<dots> = zip [0..<n] P @ [(n, P ! n)]"
    by (simp only: zip_take_right)
  finally show ?thesis by simp
qed

lemma log_inv_start: "log_inv f [] [] []"
  by (simp add: log_inv_def)

lemma log_inv_push: "log_inv f P q fs \<Longrightarrow> log_inv f (P @ new) (q @ new) fs"
  by (simp add: log_inv_def zip_append2)

lemma log_inv_pop:
  assumes "log_inv f P (d # q) fs"
  shows "log_inv f P q (fs @ [f (length fs) d])"
proof -
  from assms have d: "drop (length fs) P = d # q" and fs: "map2 f [0..<length fs] P = fs"
    by (simp_all add: log_inv_def)
  note n = drop_eq_Cons [OF d]
  have "map2 f [0..<Suc (length fs)] P = fs @ [f (length fs) d]"
    using map2_upt_Suc [OF n(1), of f] n(2) fs by simp
  with n show ?thesis
    by (simp add: log_inv_def)
qed

lemma log_inv_done:
  assumes "log_inv f P [] fs"
  shows "length fs = length P" and "fs = map2 f [0..<length P] P"
proof -
  from assms have "length fs \<le> length P" and "length P \<le> length fs"
    and fs: "map2 f [0..<length fs] P = fs"
    by (simp_all add: log_inv_def)
  then show n: "length fs = length P" by simp
  from fs show "fs = map2 f [0..<length P] P" unfolding n by simp
qed

lemma export_color_keeps [simp]:
  "opt (export_color w s) = opt s"
  "playback (export_color w s) = playback s"
  "played (export_color w s) = played s"
  "depth_image (export_color w s) = depth_image s"
  "depth_thread (export_color w s) = depth_thread s"
  "infrared_thread (export_color w s) = infrared_thread s"
  "depth_queue (export_color w s) = depth_queue s"
  "infrared_queue (export_color w s) = infrared_queue s"
  "main_thread (export_color w s) = main_thread s"
  "stdout (export_color w s) = stdout s"
  "keys (export_color w s) = keys s"
  "depth_files (export_color w s) = depth_files s"
  "infrared_files (export_color w s) = infrared_files s"
  by (simp_all add: export_color_def Let_def split: exporter.splits list.splits)

lemma export_depth_keeps [simp]:
  "opt (export_depth w s) = opt s"
  "playback (export_depth w s) = playback s"
  "played (export_depth w s) = played s"
  "depth_image (export_depth w s) = depth_image s"
  "color_thread (export_depth w s) = color_thread s"
  "infrared_thread (export_depth w s) = infrared_thread s"
  "color_queue (export_depth w s) = color_queue s"
  "infrared_queue (export_depth w s) = infrared_queue s"
  "main_thread (export_depth w s) = main_thread s"
  "stdout (export_depth w s) = stdout s"
  "keys (export_depth w s) = keys s"
  "color_files (export_depth w s) = color_files s"
  "infrared_files (export_depth w s) = infrared_files s"
  by (simp_all add: export_depth_def Let_def split: exporter.splits list.splits)

lemma export_infrared_keeps [simp]:
  "opt (export_infrared w s) = opt s"
  "playback (export_infrared w s) = playback s"
  "played (export_infrared w s) = played s"
  "depth_image (export_infrared w s) = depth_image s"
  "color_thread (export_infrared w s) = color_thread s"
  "depth_thread (export_infrared w s) = depth_thread s"
  "color_queue (export_infrared w s) = color_queue s"
  "depth_queue (export_infrared w s) = depth_queue s"
  "main_thread (export_infrared w s) = main_thread s"
  "stdout (export_infrared w s) = stdout s"
  "keys (export_infrared w s) = keys s"
  "color_files (export_infrared w s) = color_files s"
  "depth_files (export_infrared w s) = depth_files s"
  by (simp_all add: export_infrared_def Let_def split: exporter.splits list.splits)

lemma run_keeps [simp]:
  "opt (run w s) = opt s" "is_quit (run w s) = is_quit s"
  "color_thread (run w s) = color_thread s" "depth_thread (run w s) = depth_thread s"
  "infrared_thread (run w s) = infrared_thread s" "stdout (run w s) = stdout s"
  "color_files (run w s) = color_files s" "depth_files (run w s) = depth_files s"
  "infrared_files (run w s) = infrared_files s"
  by (cases "playback s";
      simp add: run_def update_next Let_def waitKey_def split: list.splits prod.splits)+

lemma main_step_keeps [simp]:
  "opt (main_step w s) = opt s"
  "color_thread (main_step w s) = color_thread s" "depth_thread (main_step w s) = depth_thread s"
  "infrared_thread (main_step w s) = infrared_thread s" "stdout (main_step w s) = stdout s"
  "color_files (main_step w s) = color_files s" "depth_files (main_step w s) = depth_files s"
  "infrared_files (main_step w s) = infrared_files s"
  by (simp_all add: main_step_def split: main_thread.splits)

lemma step_opt [simp]: "opt (step w t s) = opt s"
  by (simp add: step_def split: thread_id.splits)

lemma exec_opt [simp]: "opt (exec w ts s) = opt s"
  by (induction ts arbitrary: s) simp_all

lemma depth_locals_next:
  "(depth_locals c n)\<lparr>index := index (depth_locals c n) + 1\<rparr> = depth_locals c (Suc n)"
  by (simp add: depth_locals_def)

lemma infrared_locals_next:
  "(infrared_locals c n)\<lparr>index := index (infrared_locals c n) + 1\<rparr> = infrared_locals c (Suc n)"
  by (simp add: infrared_locals_def)

lemma color_inv_export:
  assumes "color_inv w s"
  shows "color_inv w (export_color w s)"
proof (cases "color_thread s")
  case (At_pop i)
  show ?thesis
  proof (cases "color_queue s")
    case Nil
    with assms At_pop show ?thesis
      by (simp add: color_inv_def export_color_def)
  next
    case (Cons d q)
    from assms At_pop have i: "i = of_nat (length (color_files s))"
      by (simp add: color_inv_def)
    from assms Cons
    have "log_inv (\<lambda>i. color_write w (opt s) (of_nat i)) (color_entries (opt s) (played s))
            (d # q) (color_files s)"
      by (simp add: color_inv_def)
    from log_inv_pop [OF this]
    have "log_inv (\<lambda>i. color_write w (opt s) (of_nat i)) (color_entries (opt s) (played s)) q
            (color_files s @ [color_write w (opt s) (of_nat (length (color_files s))) d])"
      by simp
    with At_pop Cons i show ?thesis
      by (simp add: color_inv_def export_color_def)
  qed
next
  case Absent
  with assms show ?thesis by (simp add: export_color_def)
next
  case Spawned
  with assms show ?thesis by (auto simp: color_inv_def export_color_def)
next
  case (At_while i)
  with assms show ?thesis by (simp add: color_inv_def export_color_def)
next
  case (At_empty i)
  with assms show ?thesis by (auto simp: color_inv_def export_color_def log_inv_def)
next
  case Finished
  with assms show ?thesis by (simp add: export_color_def)
qed

lemma depth_inv_export:
  assumes "depth_inv w s"
  shows "depth_inv w (export_depth w s)"
proof (cases "depth_thread s")
  case (At_pop l)
  show ?thesis
  proof (cases "depth_queue s")
    case Nil
    with assms At_pop show ?thesis
      by (simp add: depth_inv_def export_depth_def)
  next
    case (Cons d q)
    from assms At_pop have l: "l = depth_locals (opt s) (length (depth_files s))"
      by (simp add: depth_inv_def)
    from assms Cons
    have "log_inv (\<lambda>i. depth_write w (opt s) (depth_locals (opt s) i)) (depth_entries w (opt s) (played s))
            (d # q) (depth_files s)"
      by (simp add: depth_inv_def)
    from log_inv_pop [OF this]
    have "log_inv (\<lambda>i. depth_write w (opt s) (depth_locals (opt s) i)) (depth_entries w (opt s) (played s)) q
            (depth_files s @ [depth_write w (opt s) l d])"
      by (simp add: l)
    with assms At_pop Cons l show ?thesis
      by (simp add: depth_inv_def export_depth_def Let_def depth_locals_next)
  qed
next
  case Absent
  with assms show ?thesis by (simp add: export_depth_def)
next
  case Spawned
  with assms show ?thesis by (auto simp: depth_inv_def export_depth_def depth_locals_def)
next
  case (At_while l)
  with assms show ?thesis by (simp add: depth_inv_def export_depth_def)
next
  case (At_empty l)
  with assms show ?thesis by (auto simp: depth_inv_def export_depth_def log_inv_def)
next
  case Finished
  with assms show ?thesis by (simp add: export_depth_def)
qed

lemma infrared_inv_export:
  assumes "infrared_inv w s"
  shows "infrared_inv w (export_infrared w s)"
proof (cases "infrared_thread s")
  case (At_pop l)
  show ?thesis
  proof (cases "infrared_queue s")
    case Nil
    with assms At_pop show ?thesis
      by (simp add: infrared_inv_def export_infrared_def)
  next
    case (Cons d q)
    from assms At_pop have l: "l = infrared_locals (opt s) (length (infrared_files s))"
      by (simp add: infrared_inv_def)
    from assms Cons
    have "log_inv (\<lambda>i. infrared_write w (opt s) (infrared_locals (opt s) i)) (infrared_entries (opt s) (played s))
            (d # q) (infrared_files s)"
      by (simp add: infrared_inv_def)
    from log_inv_pop [OF this]
    have "log_inv (\<lambda>i. infrared_write w (opt s) (infrared_locals (opt s) i)) (infrared_entries (opt s) (played s)) q
            (infrared_files s @ [infrared_write w (opt s) l d])"
      by (simp add: l)
    with assms At_pop Cons l show ?thesis
      by (simp add: infrared_inv_def export_infrared_def Let_def infrared_locals_next)
  qed
next
  case Absent
  with assms show ?thesis by (simp add: export_infrared_def)
next
  case Spawned
  with assms show ?thesis by (auto simp: infrared_inv_def export_infrared_def infrared_locals_def)
next
  case (At_while l)
  with assms show ?thesis by (simp add: infrared_inv_def export_infrared_def)
next
  case (At_empty l)
  with assms show ?thesis by (auto simp: infrared_inv_def export_infrared_def log_inv_def)
next
  case Finished
  with assms show ?thesis by (simp add: export_infrared_def)
qed

lemma color_inv_main:
  assumes "color_inv w s" and "status s = Running"
  shows "color_inv w (main_step w s)"
proof (cases "main_thread s")
  case In_run
  show ?thesis
  proof (cases "playback s")
    case Nil
    with assms In_run show ?thesis
      by (simp add: main_step_def run_end color_inv_def)
  next
    case (Cons c cs)
    from assms have "log_inv (\<lambda>i. color_write w (opt s) (of_nat i))
        (color_entries (opt s) (played s @ [c])) (color_queue s @ color_entries (opt s) [c])
        (color_files s)"
      by (simp add: color_inv_def entries_append log_inv_push)
    with assms In_run Cons show ?thesis
      by (simp add: main_step_def color_inv_def run_next)
  qed
qed (use assms in \<open>simp_all add: main_step_def color_inv_def\<close>)

lemma depth_inv_main:
  assumes "depth_inv w s" and "status s = Running"
  shows "depth_inv w (main_step w s)"
proof (cases "main_thread s")
  case In_run
  show ?thesis
  proof (cases "playback s")
    case Nil
    with assms In_run show ?thesis
      by (simp add: main_step_def run_end depth_inv_def)
  next
    case (Cons c cs)
    from assms have "log_inv (\<lambda>i. depth_write w (opt s) (depth_locals (opt s) i))
        (depth_entries w (opt s) (played s @ [c])) (depth_queue s @ depth_entries w (opt s) [c])
        (depth_files s)"
      by (simp add: depth_inv_def entries_append log_inv_push)
    with assms In_run Cons show ?thesis
      by (simp add: main_step_def depth_inv_def run_next)
  qed
qed (use assms in \<open>simp_all add: main_step_def depth_inv_def\<close>)

lemma infrared_inv_main:
  assumes "infrared_inv w s" and "status s = Running"
  shows "infrared_inv w (main_step w s)"
proof (cases "main_thread s")
  case In_run
  show ?thesis
  proof (cases "playback s")
    case Nil
    with assms In_run show ?thesis
      by (simp add: main_step_def run_end infrared_inv_def)
  next
    case (Cons c cs)
    from assms have "log_inv (\<lambda>i. infrared_write w (opt s) (infrared_locals (opt s) i))
        (infrared_entries (opt s) (played s @ [c])) (infrared_queue s @ infrared_entries (opt s) [c])
        (infrared_files s)"
      by (simp add: infrared_inv_def entries_append log_inv_push)
    with assms In_run Cons show ?thesis
      by (simp add: main_step_def infrared_inv_def run_next)
  qed
qed (use assms in \<open>simp_all add: main_step_def infrared_inv_def\<close>)

lemma color_inv_eq:
  "opt s' = opt s \<Longrightarrow> played s' = played s \<Longrightarrow> color_queue s' = color_queue s \<Longrightarrow>
   color_files s' = color_files s \<Longrightarrow> color_thread s' = color_thread s \<Longrightarrow>
   color_inv w s' = color_inv w s"
  by (simp add: color_inv_def)

lemma depth_inv_eq:
  "opt s' = opt s \<Longrightarrow> played s' = played s \<Longrightarrow> depth_queue s' = depth_queue s \<Longrightarrow>
   depth_files s' = depth_files s \<Longrightarrow> depth_thread s' = depth_thread s \<Longrightarrow>
   depth_image s' = depth_image s \<Longrightarrow> depth_inv w s' = depth_inv w s"
  by (simp add: depth_inv_def)

lemma infrared_inv_eq:
  "opt s' = opt s \<Longrightarrow> played s' = played s \<Longrightarrow> infrared_queue s' = infrared_queue s \<Longrightarrow>
   infrared_files s' = infrared_files s \<Longrightarrow> infrared_thread s' = infrared_thread s \<Longrightarrow>
   infrared_inv w s' = infrared_inv w s"
  by (simp add: infrared_inv_def)

lemma color_inv_step:
  assumes "color_inv w s"
  shows "color_inv w (step w t s)"
proof (cases "status s = Running")
  case False
  with assms show ?thesis by (simp add: step_def)
next
  case True
  show ?thesis
  proof (cases t)
    case Main_thread
    with True assms show ?thesis by (simp add: step_def color_inv_main)
  next
    case Color_thread
    with True assms show ?thesis by (simp add: step_def color_inv_export)
  next
    case Depth_thread
    have "color_inv w (export_depth w s) = color_inv w s"
      by (rule color_inv_eq) simp_all
    with Depth_thread True assms show ?thesis by (simp add: step_def)
  next
    case Infrared_thread
    have "color_inv w (export_infrared w s) = color_inv w s"
      by (rule color_inv_eq) simp_all
    with Infrared_thread True assms show ?thesis by (simp add: step_def)
  qed
qed

lemma depth_inv_step:
  assumes "depth_inv w s"
  shows "depth_inv w (step w t s)"
proof (cases "status s = Running")
  case False
  with assms show ?thesis by (simp add: step_def)
next
  case True
  show ?thesis
  proof (cases t)
    case Main_thread
    with True assms show ?thesis by (simp add: step_def depth_inv_main)
  next
    case Depth_thread
    with True assms show ?thesis by (simp add: step_def depth_inv_export)
  next
    case Color_thread
    have "depth_inv w (export_color w s) = depth_inv w s"
      by (rule depth_inv_eq) simp_all
    with Color_thread True assms show ?thesis by (simp add: step_def)
  next
    case Infrared_thread
    have "depth_inv w (export_infrared w s) = depth_inv w s"
      by (rule depth_inv_eq) simp_all
    with Infrared_thread True assms show ?thesis by (simp add: step_def)
  qed
qed

lemma infrared_inv_step:
  assumes "infrared_inv w s"
  shows "infrared_inv w (step w t s)"
proof (cases "status s = Running")
  case False
  with assms show ?thesis by (simp add: step_def)
next
  case True
  show ?thesis
  proof (cases t)
    case Main_thread
    with True assms show ?thesis by (simp add: step_def infrared_inv_main)
  next
    case Infrared_thread
    with True assms show ?thesis by (simp add: step_def infrared_inv_export)
  next
    case Color_thread
    have "infrared_inv w (export_color w s) = infrared_inv w s"
      by (rule infrared_inv_eq) simp_all
    with Color_thread True assms show ?thesis by (simp add: step_def)
  next
    case Depth_thread
    have "infrared_inv w (export_depth w s) = infrared_inv w s"
      by (rule infrared_inv_eq) simp_all
    with Depth_thread True assms show ?thesis by (simp add: step_def)
  qed
qed

lemma fresh_process0: "fresh (process0 w)"
  by (simp add: fresh_def process0_def options0_def no_image_def)

lemma fresh_initialize_parameter:
  "fresh s \<Longrightarrow> fresh (snd (initialize_parameter w p s))"
  by (simp add: fresh_def initialize_parameter_def EXIT_SUCCESS_def)

lemma fresh_initialize_playback:
  "fresh s \<Longrightarrow> fresh (snd (initialize_playback w s))"
  by (simp add: fresh_def initialize_playback_def split: sum.splits)

lemma initialize_save_started:
  assumes "initialize_save w s = (None, s')"
  shows "s' = s\<lparr>opt := (opt s)
               \<lparr>directory := parent_path (mkv_file (opt s)) @ ''/'' @ stem (mkv_file (opt s)),
                is_color := color_track_enabled (record_configuration (opt s)),
                is_depth := depth_track_enabled (record_configuration (opt s)),
                is_infrared := ir_track_enabled (record_configuration (opt s))\<rparr>,
             color_thread :=
               (if color_track_enabled (record_configuration (opt s)) then Spawned else Absent),
             depth_thread :=
               (if depth_track_enabled (record_configuration (opt s)) then Spawned else Absent),
             infrared_thread :=
               (if ir_track_enabled (record_configuration (opt s)) then Spawned else Absent)\<rparr>"
proof -
  let ?dir = "parent_path (mkv_file (opt s)) @ ''/'' @ stem (mkv_file (opt s))"
  let ?rc = "record_configuration (opt s)"
  let ?names = "(if color_track_enabled ?rc then [''color''] else [])
                     @ (if depth_track_enabled ?rc then [''depth''] else [])
                     @ (if ir_track_enabled ?rc then [''infrared''] else [])"
  from assms have root: "create_directories w ?dir"
    by (cases "create_directories w ?dir")
      (simp_all add: initialize_save_def Let_def split del: if_split)
  from assms root have sub: "create_sub_directories w ?dir ?names = None"
    by (cases "create_sub_directories w ?dir ?names")
      (simp_all add: initialize_save_def Let_def split del: if_split)
  from assms root sub show ?thesis
    by (simp add: initialize_save_def Let_def split del: if_split)
qed

lemma fresh_initialize_save:
  assumes "initialize_save w s = (None, s')" and "fresh s"
  shows "fresh s'"
  unfolding initialize_save_started [OF assms(1)] using assms(2)
  by (simp add: fresh_def)

lemma fresh_initialize:
  assumes "initialize w p s0 = (None, s)" and "fresh s0"
  shows "fresh s"
proof -
  obtain r1 s1 where p1: "initialize_parameter w p s0 = (r1, s1)"
    by (cases "initialize_parameter w p s0")
  with assms(2) fresh_initialize_parameter [of s0 w p] have f1: "fresh s1" by simp
  from assms(1) p1 have r1: "r1 = None"
    by (cases r1) (simp_all add: initialize_def)
  show ?thesis
  proof (cases "status s1 = Running")
    case False
    with assms(1) p1 r1 f1 show ?thesis by (simp add: initialize_def)
  next
    case True
    obtain r2 s2 where p2: "initialize_playback w s1 = (r2, s2)"
      by (cases "initialize_playback w s1")
    with f1 fresh_initialize_playback [of s1 w] have f2: "fresh s2" by simp
    from assms(1) p1 r1 True p2 have r2: "r2 = None"
      by (cases r2) (simp_all add: initialize_def)
    from assms(1) p1 r1 True p2 r2 have "initialize_save w s2 = (None, s)"
      by (simp add: initialize_def)
    from fresh_initialize_save [OF this f2] show ?thesis .
  qed
qed

lemma main_cases:
  "fresh (main w p) \<or>
   (\<exists>out. main w p = (process0 w)\<lparr>stdout := out, main_thread := Returned, status := Exited 0\<rparr>)"
proof (cases "initialize w p (process0 w)")
  case (Pair r s)
  show ?thesis
  proof (cases r)
    case None
    with Pair fresh_initialize [OF _ fresh_process0] show ?thesis
      by (simp add: main_def)
  next
    case (Some e)
    with Pair have "main w p =
        (process0 w)\<lparr>stdout := stdout s @ [what e], main_thread := Returned, status := Exited 0\<rparr>"
      by (simp add: main_def)
    then show ?thesis by blast
  qed
qed

lemma entries_Nil [simp]:
  "color_entries c [] = []" "depth_entries w c [] = []" "infrared_entries c [] = []"
  by (simp_all add: color_entries_def depth_entries_def infrared_entries_def)

lemma fresh_color_inv: "fresh s \<Longrightarrow> color_inv w s"
  by (simp add: fresh_def color_inv_def log_inv_start)

lemma fresh_depth_inv: "fresh s \<Longrightarrow> depth_inv w s"
  by (simp add: fresh_def depth_inv_def log_inv_start)

lemma fresh_infrared_inv: "fresh s \<Longrightarrow> infrared_inv w s"
  by (simp add: fresh_def infrared_inv_def log_inv_start)

lemma fresh_quit_inv: "fresh s \<Longrightarrow> quit_inv s"
  by (auto simp: fresh_def quit_inv_def joined_def)

lemma leaves_late_start: "leaves_late quit down t q \<Longrightarrow> leaves_late False down t q"
  by (cases t) simp_all

lemma leaves_late_push: "leaves_late quit False t q \<Longrightarrow> leaves_late quit False t q'"
  by (cases t) simp_all

lemma leaves_late_finalize: "leaves_late quit False t q \<Longrightarrow> leaves_late quit' True t q"
  by (cases t) simp_all

lemma failed_invs:
  "color_inv w ((process0 w')\<lparr>stdout := out, main_thread := Returned, status := Exited 0\<rparr>)"
  "depth_inv w ((process0 w')\<lparr>stdout := out, main_thread := Returned, status := Exited 0\<rparr>)"
  "infrared_inv w ((process0 w')\<lparr>stdout := out, main_thread := Returned, status := Exited 0\<rparr>)"
  "quit_inv ((process0 w')\<lparr>stdout := out, main_thread := Returned, status := Exited 0\<rparr>)"
  by (simp_all add: color_inv_def depth_inv_def infrared_inv_def quit_inv_def process0_def
      options0_def no_image_def log_inv_start joined_def tearing_down_def)

lemma main_invs:
  "color_inv w (main w p)" "depth_inv w (main w p)" "infrared_inv w (main w p)"
  "quit_inv (main w p)"
  using main_cases [of w p]
  by (auto simp: failed_invs fresh_color_inv fresh_depth_inv fresh_infrared_inv fresh_quit_inv)

lemma joins_done_mono:
  "joins_done m c d i \<Longrightarrow> (c \<Longrightarrow> c') \<Longrightarrow> (d \<Longrightarrow> d') \<Longrightarrow> (i \<Longrightarrow> i') \<Longrightarrow> joins_done m c' d' i'"
  by (cases m) auto

lemma quit_inv_export_color:
  assumes "quit_inv s"
  shows "quit_inv (export_color w s)"
proof (cases "color_thread s")
  case Spawned
  with assms show ?thesis
    by (auto simp: quit_inv_def export_color_def joined_def intro: leaves_late_start)
next
  case (At_while l)
  with assms show ?thesis
    by (auto simp: quit_inv_def export_color_def joined_def)
next
  case (At_empty l)
  with assms show ?thesis
    by (auto simp: quit_inv_def export_color_def joined_def elim: joins_done_mono)
next
  case (At_pop l)
  with assms show ?thesis
    by (auto simp: quit_inv_def export_color_def joined_def Let_def split: list.splits)
qed (use assms in \<open>simp_all add: export_color_def\<close>)

lemma quit_inv_export_depth:
  assumes "quit_inv s"
  shows "quit_inv (export_depth w s)"
proof (cases "depth_thread s")
  case Spawned
  with assms show ?thesis
    by (auto simp: quit_inv_def export_depth_def joined_def intro: leaves_late_start)
next
  case (At_while l)
  with assms show ?thesis
    by (auto simp: quit_inv_def export_depth_def joined_def)
next
  case (At_empty l)
  with assms show ?thesis
    by (auto simp: quit_inv_def export_depth_def joined_def elim: joins_done_mono)
next
  case (At_pop l)
  with assms show ?thesis
    by (auto simp: quit_inv_def export_depth_def joined_def Let_def split: list.splits)
qed (use assms in \<open>simp_all add: export_depth_def\<close>)

lemma quit_inv_export_infrared:
  assumes "quit_inv s"
  shows "quit_inv (export_infrared w s)"
proof (cases "infrared_thread s")
  case Spawned
  with assms show ?thesis
    by (auto simp: quit_inv_def export_infrared_def joined_def intro: leaves_late_start)
next
  case (At_while l)
  with assms show ?thesis
    by (auto simp: quit_inv_def export_infrared_def joined_def)
next
  case (At_empty l)
  with assms show ?thesis
    by (auto simp: quit_inv_def export_infrared_def joined_def elim: joins_done_mono)
next
  case (At_pop l)
  with assms show ?thesis
    by (auto simp: quit_inv_def export_infrared_def joined_def Let_def split: list.splits)
qed (use assms in \<open>simp_all add: export_infrared_def\<close>)

lemma quit_inv_main:
  assumes "quit_inv s" and "status s = Running"
  shows "quit_inv (main_step w s)"
proof (cases "main_thread s")
  case In_run
  show ?thesis
  proof (cases "playback s")
    case Nil
    with assms In_run show ?thesis
      by (simp add: main_step_def run_end quit_inv_def)
  next
    case (Cons c cs)
    with assms In_run show ?thesis
      by (auto simp: main_step_def quit_inv_def run_next tearing_down_def
          intro: leaves_late_push)
  qed
next
  case In_finalize
  with assms show ?thesis
    by (auto simp: main_step_def quit_inv_def tearing_down_def intro: leaves_late_finalize)
next
  case Join_color
  with assms show ?thesis
    by (auto simp: main_step_def quit_inv_def tearing_down_def)
next
  case Join_depth
  with assms show ?thesis
    by (auto simp: main_step_def quit_inv_def tearing_down_def)
next
  case Join_infrared
  with assms show ?thesis
    by (auto simp: main_step_def quit_inv_def tearing_down_def)
next
  case Returned
  with assms show ?thesis
    by (simp add: main_step_def)
qed

lemma quit_inv_step:
  assumes "quit_inv s"
  shows "quit_inv (step w t s)"
proof (cases "status s = Running")
  case False
  with assms show ?thesis by (simp add: step_def)
next
  case True
  with assms show ?thesis
    by (cases t)
      (simp_all add: step_def quit_inv_main quit_inv_export_color quit_inv_export_depth
        quit_inv_export_infrared)
qed

lemma invariant_step: "invariant w s \<Longrightarrow> invariant w (step w t s)"
  by (simp add: invariant_def color_inv_step depth_inv_step infrared_inv_step quit_inv_step)

lemma invariant_exec: "invariant w s \<Longrightarrow> invariant w (exec w ts s)"
  by (induction ts arbitrary: s) (simp_all add: invariant_step)

lemma invariant_main: "invariant w (main w p)"
  by (simp add: invariant_def main_invs)

lemma invariant_program: "invariant w (program w p ts)"
  unfolding program_def by (rule invariant_exec [OF invariant_main])

lemmas example_defs =
  example_world_def example_parser_def color_only_def recording_def capture_at_def image_def
  no_transform_world_def first_write_fails_world_def

lemmas start_defs =
  program_def main_def initialize_def initialize_parameter_def initialize_playback_def
  initialize_save_def process0_def options0_def no_image_def generic_string_def
  clamp_quality_def IMWRITE_JPEG_QUALITY_def

lemmas run_defs =
  step_def main_step_def run_def update_def update_frame_def update_color_def update_depth_def
  update_infrared_def update_transformation_def draw_def draw_color_def draw_depth_def
  draw_infrared_def draw_transformation_def show_windows_def waitKey_def
  export_color_def color_write_def color_name_def EXIT_SUCCESS_def Let_def joined_def
  export_depth_def depth_write_def depth_name_def depth_raster_def
  export_infrared_def infrared_write_def infrared_name_def infrared_raster_def










lemma map_zip_upt_fst:
  assumes "n \<le> length P"
  shows "map (\<lambda>(i, e). h i) (zip [0..<n] P) = map h [0..<n]"
proof -
  have "map (\<lambda>(i, e). h i) (zip [0..<n] P) = map h (map fst (zip [0..<n] P))"
    by (simp add: case_prod_unfold)
  also have "map fst (zip [0..<n] P) = [0..<n]"
    using assms by (simp add: map_fst_zip_take)
  finally show ?thesis .
qed

lemma map_zip_upt_snd:
  assumes "n \<le> length P"
  shows "map (\<lambda>(i, e). h e) (zip [0..<n] P) = map h (take n P)"
proof -
  have "map (\<lambda>(i, e). h e) (zip [0..<n] P) = map h (map snd (zip [0..<n] P))"
    by (simp add: case_prod_unfold)
  also have "map snd (zip [0..<n] P) = take n P"
    using assms by (simp add: map_snd_zip_take)
  finally show ?thesis .
qed

lemma unat_sequence_upt:
  assumes "n \<le> 2 ^ 64"
  shows "map (\<lambda>i. unat (of_nat i :: 64 word)) [0..<n] = [0..<n]"
proof (rule map_idI)
  fix i assume "i \<in> set [0..<n]"
  with assms have "i < 2 ^ 64" by simp
  then show "unat (of_nat i :: 64 word) = i"
    by (simp add: unat_of_nat)
qed

lemma strict_upt: "sorted_wrt (<) [0..<n]"
  by simp

lemma sorted_filter_map:
  "sorted (map g xs) \<Longrightarrow> sorted (map g (filter ok xs))"
  by (simp add: sorted_map sorted_wrt_filter)

lemma strict_filter_map:
  "sorted_wrt (<) (map g xs) \<Longrightarrow> sorted_wrt (<) (map g (filter ok xs))"
  by (simp add: sorted_wrt_map sorted_wrt_filter)

lemma sorted_take_prefix:
  "sorted (xs @ ys) \<Longrightarrow> sorted (take n xs)"
  by (simp add: sorted_append sorted_wrt_take)

lemma source_step: "played (step w t s) @ playback (step w t s) = played s @ playback s"
proof (cases "status s = Running")
  case False
  then show ?thesis by (simp add: step_def)
next
  case True
  show ?thesis
  proof (cases t)
    case Main_thread
    show ?thesis
    proof (cases "main_thread s")
      case In_run
      with True Main_thread show ?thesis
        by (cases "playback s") (simp_all add: step_def main_step_def run_end run_next)
    qed (use True Main_thread in \<open>simp_all add: step_def main_step_def\<close>)
  qed (use True in \<open>simp_all add: step_def\<close>)
qed

lemma source_exec: "played (exec w ts s) @ playback (exec w ts s) = played s @ playback s"
  by (induction ts arbitrary: s) (simp_all add: source_step)

lemma played_main: "played (main w p) = []"
  using main_cases [of w p] by (auto simp: fresh_def process0_def)

lemma source_program:
  "played (program w p ts) @ playback (program w p ts) = playback (main w p)"
  by (simp add: program_def source_exec played_main)

lemma opt_program: "opt (program w p ts) = opt (main w p)"
  by (simp add: program_def)

lemma joined_color:
  assumes "invariant w s" and "joined (color_thread s)"
  shows "color_queue s = []"
    and "length (color_files s) = length (color_entries (opt s) (played s))"
proof -
  from assms(1) have c: "color_inv w s" and q: "quit_inv s"
    by (simp_all add: invariant_def)
  from assms(2) have "color_thread s = Absent \<or> color_thread s = Finished"
    by (simp add: joined_def)
  then have "color_queue s = [] \<and> length (color_files s) = length (color_entries (opt s) (played s))"
  proof
    assume a: "color_thread s = Absent"
    with q have "\<not> is_color (opt s)" by (simp add: quit_inv_def)
    with a c show ?thesis
      by (simp add: color_inv_def log_inv_def color_entries_def)
  next
    assume f: "color_thread s = Finished"
    with q have e: "color_queue s = []" by (simp add: quit_inv_def)
    with c have "log_inv (\<lambda>i. color_write w (opt s) (of_nat i))
        (color_entries (opt s) (played s)) [] (color_files s)"
      by (simp add: color_inv_def)
    from log_inv_done(1) [OF this] e show ?thesis by simp
  qed
  then show "color_queue s = []"
    and "length (color_files s) = length (color_entries (opt s) (played s))"
    by simp_all
qed

lemma joined_depth:
  assumes "invariant w s" and "joined (depth_thread s)"
  shows "depth_queue s = []"
    and "length (depth_files s) = length (depth_entries w (opt s) (played s))"
proof -
  from assms(1) have c: "depth_inv w s" and q: "quit_inv s"
    by (simp_all add: invariant_def)
  from assms(2) have "depth_thread s = Absent \<or> depth_thread s = Finished"
    by (simp add: joined_def)
  then have "depth_queue s = [] \<and> length (depth_files s) = length (depth_entries w (opt s) (played s))"
  proof
    assume a: "depth_thread s = Absent"
    with q have "\<not> is_depth (opt s)" by (simp add: quit_inv_def)
    with a c show ?thesis
      by (simp add: depth_inv_def log_inv_def depth_entries_def)
  next
    assume f: "depth_thread s = Finished"
    with q have e: "depth_queue s = []" by (simp add: quit_inv_def)
    with c have "log_inv (\<lambda>i. depth_write w (opt s) (depth_locals (opt s) i))
        (depth_entries w (opt s) (played s)) [] (depth_files s)"
      by (simp add: depth_inv_def)
    from log_inv_done(1) [OF this] e show ?thesis by simp
  qed
  then show "depth_queue s = []"
    and "length (depth_files s) = length (depth_entries w (opt s) (played s))"
    by simp_all
qed

lemma joined_infrared:
  assumes "invariant w s" and "joined (infrared_thread s)"
  shows "infrared_queue s = []"
    and "length (infrared_files s) = length (infrared_entries (opt s) (played s))"
proof -
  from assms(1) have c: "infrared_inv w s" and q: "quit_inv s"
    by (simp_all add: invariant_def)
  from assms(2) have "infrared_thread s = Absent \<or> infrared_thread s = Finished"
    by (simp add: joined_def)
  then have "infrared_queue s = [] \<and> length (infrared_files s) = length (infrared_entries (opt s) (played s))"
  proof
    assume a: "infrared_thread s = Absent"
    with q have "\<not> is_infrared (opt s)" by (simp add: quit_inv_def)
    with a c show ?thesis
      by (simp add: infrared_inv_def log_inv_def infrared_entries_def)
  next
    assume f: "infrared_thread s = Finished"
    with q have e: "infrared_queue s = []" by (simp add: quit_inv_def)
    with c have "log_inv (\<lambda>i. infrared_write w (opt s) (infrared_locals (opt s) i))
        (infrared_entries (opt s) (played s)) [] (infrared_files s)"
      by (simp add: infrared_inv_def)
    from log_inv_done(1) [OF this] e show ?thesis by simp
  qed
  then show "infrared_queue s = []"
    and "length (infrared_files s) = length (infrared_entries (opt s) (played s))"
    by simp_all
qed

lemma length_entries:
  "length (color_entries c cs) =
     (if is_color c then length (filter (\<lambda>k. handle (get_color_image k)) cs) else 0)"
  "length (depth_entries w c cs) =
     (if is_depth c then length (filter (\<lambda>k. handle (get_depth_image k)) cs) else 0)"
  "length (infrared_entries c cs) =
     (if is_infrared c then length (filter (\<lambda>k. handle (get_ir_image k)) cs) else 0)"
  by (simp_all add: color_entries_def depth_entries_def infrared_entries_def)

lemmas quit_schedule_defs = start_defs run_defs example_defs

lemma color_file_names:
  assumes "color_inv w s"
  shows "map (\<lambda>f. sequence (fst f)) (color_files s) = map of_nat [0..<length (color_files s)]"
    and "map (\<lambda>f. timestamp (fst f)) (color_files s)
           = map snd (take (length (color_files s)) (color_entries (opt s) (played s)))"
proof -
  let ?n = "length (color_files s)" and ?P = "color_entries (opt s) (played s)"
  from assms have n: "?n \<le> length ?P"
    and f: "map2 (\<lambda>i. color_write w (opt s) (of_nat i)) [0..<?n] ?P = color_files s"
    by (simp_all add: color_inv_def log_inv_def)
  have "map (\<lambda>f. sequence (fst f)) (map2 (\<lambda>i. color_write w (opt s) (of_nat i)) [0..<?n] ?P)
          = map (\<lambda>(i, e). of_nat i) (zip [0..<?n] ?P)"
    by (simp add: color_write_def color_name_def Let_def case_prod_unfold)
  with f map_zip_upt_fst [OF n, of of_nat]
  show "map (\<lambda>f. sequence (fst f)) (color_files s) = map of_nat [0..<?n]"
    by simp
  have "map (\<lambda>f. timestamp (fst f)) (map2 (\<lambda>i. color_write w (opt s) (of_nat i)) [0..<?n] ?P)
          = map (\<lambda>(i, e). snd e) (zip [0..<?n] ?P)"
    by (simp add: color_write_def color_name_def Let_def case_prod_unfold)
  with f map_zip_upt_snd [OF n, of snd]
  show "map (\<lambda>f. timestamp (fst f)) (color_files s) = map snd (take ?n ?P)"
    by simp
qed

lemma color_entries_timestamps:
  "map snd (color_entries c cs) =
     (if is_color c then map (\<lambda>k. device_timestamp (get_color_image k)) (filter (\<lambda>k. handle (get_color_image k)) cs)
      else [])"
  by (simp add: color_entries_def)

lemma color_order:
  assumes i: "color_inv w s" and a: "played s @ playback s = cs"
  shows "map (\<lambda>f. timestamp (fst f)) (color_files s)
           = take (length (color_files s))
               (map (\<lambda>k. device_timestamp (get_color_image k)) (filter (\<lambda>k. handle (get_color_image k)) cs))"
    and "length (color_files s) \<le> length cs"
proof -
  let ?n = "length (color_files s)" and ?P = "color_entries (opt s) (played s)"
  let ?T = "map (\<lambda>k. device_timestamp (get_color_image k)) (filter (\<lambda>k. handle (get_color_image k)) cs)"
  from i have n: "?n \<le> length ?P"
    by (simp add: color_inv_def log_inv_def)
  have "length ?P \<le> length (played s)"
    by (simp add: color_entries_def)
  with n a show "?n \<le> length cs" by auto
  show "map (\<lambda>f. timestamp (fst f)) (color_files s) = take ?n ?T"
  proof (cases "is_color (opt s)")
    case True
    have "?T = map snd ?P @ map snd (color_entries (opt s) (playback s))"
      using True by (simp add: color_entries_timestamps a [symmetric])
    with n have "take ?n ?T = take ?n (map snd ?P)" by simp
    with color_file_names(2) [OF i] show ?thesis by (simp add: take_map)
  next
    case False
    with n have "?n = 0" by (simp add: color_entries_def)
    then show ?thesis by simp
  qed
qed

lemma depth_file_names:
  assumes "depth_inv w s"
  shows "map (\<lambda>f. sequence (fst f)) (depth_files s) = map of_nat [0..<length (depth_files s)]"
    and "map (\<lambda>f. timestamp (fst f)) (depth_files s)
           = map snd (take (length (depth_files s)) (depth_entries w (opt s) (played s)))"
proof -
  let ?n = "length (depth_files s)" and ?P = "depth_entries w (opt s) (played s)"
  from assms have n: "?n \<le> length ?P"
    and f: "map2 (\<lambda>i. depth_write w (opt s) (depth_locals (opt s) i)) [0..<?n] ?P = depth_files s"
    by (simp_all add: depth_inv_def log_inv_def)
  have "map (\<lambda>f. sequence (fst f)) (map2 (\<lambda>i. depth_write w (opt s) (depth_locals (opt s) i)) [0..<?n] ?P)
          = map (\<lambda>(i, e). of_nat i) (zip [0..<?n] ?P)"
    by (simp add: depth_write_def depth_name_def depth_locals_def Let_def case_prod_unfold)
  with f map_zip_upt_fst [OF n, of of_nat]
  show "map (\<lambda>f. sequence (fst f)) (depth_files s) = map of_nat [0..<?n]"
    by simp
  have "map (\<lambda>f. timestamp (fst f)) (map2 (\<lambda>i. depth_write w (opt s) (depth_locals (opt s) i)) [0..<?n] ?P)
          = map (\<lambda>(i, e). snd e) (zip [0..<?n] ?P)"
    by (simp add: depth_write_def depth_name_def depth_locals_def Let_def case_prod_unfold)
  with f map_zip_upt_snd [OF n, of snd]
  show "map (\<lambda>f. timestamp (fst f)) (depth_files s) = map snd (take ?n ?P)"
    by simp
qed

lemma depth_entries_timestamps:
  "map snd (depth_entries w c cs) =
     (if is_depth c then map (\<lambda>k. device_timestamp (get_depth_image k)) (filter (\<lambda>k. handle (get_depth_image k)) cs)
      else [])"
  by (simp add: depth_entries_def)

lemma depth_order:
  assumes i: "depth_inv w s" and a: "played s @ playback s = cs"
  shows "map (\<lambda>f. timestamp (fst f)) (depth_files s)
           = take (length (depth_files s))
               (map (\<lambda>k. device_timestamp (get_depth_image k)) (filter (\<lambda>k. handle (get_depth_image k)) cs))"
    and "length (depth_files s) \<le> length cs"
proof -
  let ?n = "length (depth_files s)" and ?P = "depth_entries w (opt s) (played s)"
  let ?T = "map (\<lambda>k. device_timestamp (get_depth_image k)) (filter (\<lambda>k. handle (get_depth_image k)) cs)"
  from i have n: "?n \<le> length ?P"
    by (simp add: depth_inv_def log_inv_def)
  have "length ?P \<le> length (played s)"
    by (simp add: depth_entries_def)
  with n a show "?n \<le> length cs" by auto
  show "map (\<lambda>f. timestamp (fst f)) (depth_files s) = take ?n ?T"
  proof (cases "is_depth (opt s)")
    case True
    have "?T = map snd ?P @ map snd (depth_entries w (opt s) (playback s))"
      using True by (simp add: depth_entries_timestamps a [symmetric])
    with n have "take ?n ?T = take ?n (map snd ?P)" by simp
    with depth_file_names(2) [OF i] show ?thesis by (simp add: take_map)
  next
    case False
    with n have "?n = 0" by (simp add: depth_entries_def)
    then show ?thesis by simp
  qed
qed

lemma infrared_file_names:
  assumes "infrared_inv w s"
  shows "map (\<lambda>f. sequence (fst f)) (infrared_files s) = map of_nat [0..<length (infrared_files s)]"
    and "map (\<lambda>f. timestamp (fst f)) (infrared_files s)
           = map snd (take (length (infrared_files s)) (infrared_entries (opt s) (played s)))"
proof -
  let ?n = "length (infrared_files s)" and ?P = "infrared_entries (opt s) (played s)"
  from assms have n: "?n \<le> length ?P"
    and f: "map2 (\<lambda>i. infrared_write w (opt s) (infrared_locals (opt s) i)) [0..<?n] ?P = infrared_files s"
    by (simp_all add: infrared_inv_def log_inv_def)
  have "map (\<lambda>f. sequence (fst f)) (map2 (\<lambda>i. infrared_write w (opt s) (infrared_locals (opt s) i)) [0..<?n] ?P)
          = map (\<lambda>(i, e). of_nat i) (zip [0..<?n] ?P)"
    by (simp add: infrared_write_def infrared_name_def infrared_locals_def Let_def case_prod_unfold)
  with f map_zip_upt_fst [OF n, of of_nat]
  show "map (\<lambda>f. sequence (fst f)) (infrared_files s) = map of_nat [0..<?n]"
    by simp
  have "map (\<lambda>f. timestamp (fst f)) (map2 (\<lambda>i. infrared_write w (opt s) (infrared_locals (opt s) i)) [0..<?n] ?P)
          = map (\<lambda>(i, e). snd e) (zip [0..<?n] ?P)"
    by (simp add: infrared_write_def infrared_name_def infrared_locals_def Let_def case_prod_unfold)
  with f map_zip_upt_snd [OF n, of snd]
  show "map (\<lambda>f. timestamp (fst f)) (infrared_files s) = map snd (take ?n ?P)"
    by simp
qed

lemma infrared_entries_timestamps:
  "map snd (infrared_entries c cs) =
     (if is_infrared c then map (\<lambda>k. device_timestamp (get_ir_image k)) (filter (\<lambda>k. handle (get_ir_image k)) cs)
      else [])"
  by (simp add: infrared_entries_def)

lemma infrared_order:
  assumes i: "infrared_inv w s" and a: "played s @ playback s = cs"
  shows "map (\<lambda>f. timestamp (fst f)) (infrared_files s)
           = take (length (infrared_files s))
               (map (\<lambda>k. device_timestamp (get_ir_image k)) (filter (\<lambda>k. handle (get_ir_image k)) cs))"
    and "length (infrared_files s) \<le> length cs"
proof -
  let ?n = "length (infrared_files s)" and ?P = "infrared_entries (opt s) (played s)"
  let ?T = "map (\<lambda>k. device_timestamp (get_ir_image k)) (filter (\<lambda>k. handle (get_ir_image k)) cs)"
  from i have n: "?n \<le> length ?P"
    by (simp add: infrared_inv_def log_inv_def)
  have "length ?P \<le> length (played s)"
    by (simp add: infrared_entries_def)
  with n a show "?n \<le> length cs" by auto
  show "map (\<lambda>f. timestamp (fst f)) (infrared_files s) = take ?n ?T"
  proof (cases "is_infrared (opt s)")
    case True
    have "?T = map snd ?P @ map snd (infrared_entries (opt s) (playback s))"
      using True by (simp add: infrared_entries_timestamps a [symmetric])
    with n have "take ?n ?T = take ?n (map snd ?P)" by simp
    with infrared_file_names(2) [OF i] show ?thesis by (simp add: take_map)
  next
    case False
    with n have "?n = 0" by (simp add: infrared_entries_def)
    then show ?thesis by simp
  qed
qed

lemma names_ascend:
  fixes fs :: "(file_name \<times> 'a) list"
  assumes "map (\<lambda>f. sequence (fst f)) fs = map of_nat [0..<length fs]"
    and "length fs \<le> 2 ^ 64"
  shows "sorted_wrt (<) (map (\<lambda>n. unat (sequence n)) (map fst (filter ok fs)))"
proof -
  have "map (\<lambda>f. unat (sequence (fst f))) fs = map unat (map (\<lambda>f. sequence (fst f)) fs)"
    by simp
  also have "\<dots> = map (\<lambda>i. unat (of_nat i :: 64 word)) [0..<length fs]"
    by (simp add: assms(1))
  also have "\<dots> = [0..<length fs]"
    by (rule unat_sequence_upt [OF assms(2)])
  finally have "sorted_wrt (<) (map (\<lambda>f. unat (sequence (fst f))) fs)"
    by simp
  from strict_filter_map [OF this, of ok] show ?thesis
    by (simp add: comp_def)
qed

lemma stamps_ascend:
  fixes fs :: "(file_name \<times> 'a) list"
  assumes "map (\<lambda>f. timestamp (fst f)) fs = take n T" and "sorted T"
  shows "sorted (map timestamp (map fst (filter ok fs)))"
proof -
  from assms have "sorted (map (\<lambda>f. timestamp (fst f)) fs)"
    by (simp add: sorted_wrt_take)
  from sorted_filter_map [OF this, of ok] show ?thesis
    by (simp add: comp_def)
qed

lemma depth_raster_locals:
  "depth_raster w c (depth_locals c i) b =
     rescaled_or_raw w (is_scaling c)
       \<lparr>rows = height (depth_locals c 0), cols = width (depth_locals c 0), data = CV_16UC1 b\<rparr>"
  by (simp add: depth_raster_def depth_locals_def rescaled_or_raw_def)

lemma depth_file_rasters:
  assumes "depth_inv w s"
  shows "map (\<lambda>f. fst (snd f)) (depth_files s) =
           map (\<lambda>e. rescaled_or_raw w (is_scaling (opt s))
                  \<lparr>rows = height (depth_locals (opt s) 0), cols = width (depth_locals (opt s) 0),
                   data = CV_16UC1 (fst e)\<rparr>)
             (take (length (depth_files s)) (depth_entries w (opt s) (played s)))"
proof -
  let ?n = "length (depth_files s)" and ?P = "depth_entries w (opt s) (played s)"
  let ?F = "\<lambda>e. rescaled_or_raw w (is_scaling (opt s))
                  \<lparr>rows = height (depth_locals (opt s) 0), cols = width (depth_locals (opt s) 0),
                   data = CV_16UC1 (fst e)\<rparr>"
  from assms have n: "?n \<le> length ?P"
    and f: "map2 (\<lambda>i. depth_write w (opt s) (depth_locals (opt s) i)) [0..<?n] ?P = depth_files s"
    by (simp_all add: depth_inv_def log_inv_def)
  have "map (\<lambda>f. fst (snd f))
          (map2 (\<lambda>i. depth_write w (opt s) (depth_locals (opt s) i)) [0..<?n] ?P)
          = map (\<lambda>(i, e). ?F e) (zip [0..<?n] ?P)"
    by (simp add: depth_write_def Let_def case_prod_unfold depth_raster_locals)
  with f map_zip_upt_snd [OF n, of ?F] show ?thesis by simp
qed

lemma example_convertTo_depth:
  "example_convertTo \<lparr>rows = 1, cols = 2, data = CV_16UC1 [1000, 2000]\<rparr> To_CV_8U (- (51 / 1000)) 255
     = \<lparr>rows = 1, cols = 2, data = CV_8U [204, 153]\<rparr>"
  by code_simp

section \<open>Stop and drain\<close>

text \<open>
  C1. The claim: in every run that terminates, at the end of the stream or by the quit
  key, every entry pushed onto a queue is written to a file before the process ends.
  The loop of an exporter does leave only once \<^verbatim>\<open>is_quit\<close> is read true and the queue
  is then seen empty, and \<^verbatim>\<open>finalize\<close> joins the exporters. But at the end of the stream
  \<^verbatim>\<open>update_frame\<close> calls \<^verbatim>\<open>std::exit\<close>, which neither sets \<^verbatim>\<open>is_quit\<close> nor joins: the
  process ends with the exporters where they are. Below, a recording of one capture with
  a colour image. First run: the exporter starts, the main thread reads the capture and
  queues its colour image, reads again and finds the end of the stream; the process has
  exited with status 0, the entry is still in the queue, and no file was written. Second
  run, same recording, the key \<^verbatim>\<open>q\<close> pressed in the first turn: \<^verbatim>\<open>finalize\<close> waits for the
  exporter, which writes the file.
\<close>

theorem end_of_stream_exit_drops_queue:
  "status (program (example_world (color_only [capture_at 7]) []) example_parser
       [Color_thread, Main_thread, Main_thread]) = Exited 0
   \<and> color_queue (program (example_world (color_only [capture_at 7]) []) example_parser
       [Color_thread, Main_thread, Main_thread]) = [([255, 216], 7)]
   \<and> color_files (program (example_world (color_only [capture_at 7]) []) example_parser
       [Color_thread, Main_thread, Main_thread]) = []
   \<and> is_quit (program (example_world (color_only [capture_at 7]) []) example_parser
       [Color_thread, Main_thread, Main_thread]) = False
   \<and> color_thread (program (example_world (color_only [capture_at 7]) []) example_parser
       [Color_thread, Main_thread, Main_thread]) = At_while 0
   \<and> status (program (example_world (color_only [capture_at 7]) [113]) example_parser
       [Color_thread, Main_thread, Main_thread, Color_thread, Color_thread, Color_thread,
        Color_thread, Color_thread, Main_thread, Main_thread, Main_thread]) = Exited 0
   \<and> color_queue (program (example_world (color_only [capture_at 7]) [113]) example_parser
       [Color_thread, Main_thread, Main_thread, Color_thread, Color_thread, Color_thread,
        Color_thread, Color_thread, Main_thread, Main_thread, Main_thread]) = []
   \<and> map fst (color_files (program (example_world (color_only [capture_at 7]) [113]) example_parser
       [Color_thread, Main_thread, Main_thread, Color_thread, Color_thread, Color_thread,
        Color_thread, Color_thread, Main_thread, Main_thread, Main_thread]))
      = [\<lparr>folder = ''/data/session/color'', sequence = 0, timestamp = 7, extension = ''jpg''\<rparr>]"
  by (simp add: start_defs run_defs example_defs)

section \<open>Setup errors and the exit status\<close>




section \<open>A write that fails\<close>

text \<open>
  C3, as amended. For every dequeued entry, a write failure is not handled per entry and
  is not retried: the entry has left the queue, the write is recorded with the way it
  ended, the sequence number is used up and the exporter goes back to its loop
  condition. That is so whether the write succeeded or failed, for the stream of the
  colour exporter and for a \<^verbatim>\<open>cv::imwrite\<close> that returns, in the depth and infrared
  exporters. Only an exception thrown by \<^verbatim>\<open>cv::imwrite\<close> ends the process.
\<close>

theorem write_failure_skipped:
  assumes "status s = Running"
  shows "(color_thread s = At_pop i \<and> color_queue s = c # cq \<longrightarrow>
            step w Color_thread s =
              s\<lparr>color_queue := cq, color_files := color_files s @ [color_write w (opt s) i c],
                color_thread := At_while (i + 1)\<rparr>)
       \<and> (depth_thread s = At_pop l \<and> depth_queue s = d # dq
            \<and> snd (snd (depth_write w (opt s) l d)) \<noteq> Raised \<longrightarrow>
            step w Depth_thread s =
              s\<lparr>depth_queue := dq, depth_files := depth_files s @ [depth_write w (opt s) l d],
                depth_thread := At_while (l\<lparr>index := index l + 1\<rparr>)\<rparr>)
       \<and> (infrared_thread s = At_pop l \<and> infrared_queue s = d # dq
            \<and> snd (snd (snd (infrared_write w (opt s) l d))) \<noteq> Raised \<longrightarrow>
            step w Infrared_thread s =
              s\<lparr>infrared_queue := dq,
                infrared_files := infrared_files s @ [infrared_write w (opt s) l d],
                infrared_thread := At_while (l\<lparr>index := index l + 1\<rparr>)\<rparr>)
       \<and> (depth_thread s = At_pop l \<and> depth_queue s = d # dq
            \<and> snd (snd (depth_write w (opt s) l d)) = Raised \<longrightarrow>
            status (step w Depth_thread s) = Aborted)
       \<and> (infrared_thread s = At_pop l \<and> infrared_queue s = d # dq
            \<and> snd (snd (snd (infrared_write w (opt s) l d))) = Raised \<longrightarrow>
            status (step w Infrared_thread s) = Aborted)"
  using assms
  by (simp add: step_def export_color_def export_depth_def export_infrared_def Let_def)

theorem write_failure_skipped_witness:
  "color_files (step (first_write_fails_world (color_only [capture_at 7, capture_at 9]) [])
       Color_thread
       (program (first_write_fails_world (color_only [capture_at 7, capture_at 9]) [])
          example_parser [Color_thread, Main_thread, Main_thread, Color_thread]))
     = [(\<lparr>folder = ''/data/session/color'', sequence = 0, timestamp = 7, extension = ''jpg''\<rparr>,
         [255, 216], Failed)]
   \<and> color_thread (step (first_write_fails_world (color_only [capture_at 7, capture_at 9]) [])
       Color_thread
       (program (first_write_fails_world (color_only [capture_at 7, capture_at 9]) [])
          example_parser [Color_thread, Main_thread, Main_thread, Color_thread])) = At_while 1
   \<and> color_queue (step (first_write_fails_world (color_only [capture_at 7, capture_at 9]) [])
       Color_thread
       (program (first_write_fails_world (color_only [capture_at 7, capture_at 9]) [])
          example_parser [Color_thread, Main_thread, Main_thread, Color_thread]))
     = [([255, 216], 9)]"
proof -
  let ?w = "first_write_fails_world (color_only [capture_at 7, capture_at 9]) []"
  let ?s = "program ?w example_parser [Color_thread, Main_thread, Main_thread, Color_thread]"
  have s: "status ?s = Running" "color_thread ?s = At_pop 0"
    "color_queue ?s = [([255, 216], 7), ([255, 216], 9)]" "color_files ?s = []"
    "directory (opt ?s) = ''/data/session''"
    by (simp_all add: start_defs run_defs example_defs)
  from write_failure_skipped [OF s(1), of 0 "([255, 216], 7)" "[([255, 216], 9)]" ?w] s(2-5)
  show ?thesis
    by (simp add: color_write_def color_name_def first_write_fails_world_def example_world_def)
qed

text \<open>
  The claim as stated has every write failure end the process. Two colour entries, the
  stream fails on the first file: the process is still running after both entries were
  handled, the first write failed, the second file is written under sequence number 1.
\<close>

theorem write_failure_fatal_counterexample:
  "status (program (first_write_fails_world (color_only [capture_at 7, capture_at 9]) [])
       example_parser
       [Color_thread, Main_thread, Main_thread, Color_thread, Color_thread, Color_thread,
        Color_thread]) = Running
   \<and> map (\<lambda>f. (sequence (fst f), snd (snd f)))
       (color_files (program (first_write_fails_world (color_only [capture_at 7, capture_at 9]) [])
          example_parser
          [Color_thread, Main_thread, Main_thread, Color_thread, Color_thread, Color_thread,
           Color_thread]))
     = [(0, Failed), (1, Written)]"
  by (simp add: start_defs run_defs example_defs)

section \<open>How many files\<close>

text \<open>
  C4, as amended. Once \<^verbatim>\<open>main\<close> has returned (after the quit key \<^verbatim>\<open>finalize\<close> has joined
  the exporters; or the constructor threw), every queue is empty and for every image
  kind the number of writes its exporter made is the number of captures read from the
  recording that held an image of that kind, when the track is recorded, and none
  otherwise. For depth that number is the same with and without the transform flag:
  nothing is taken off for what the transformation returned. The captures read are a
  prefix of the recording. Each write is one file, unless the write failed (C3).
\<close>

theorem writes_after_teardown:
  assumes "main_thread (program w p ts) = Returned"
  shows "color_queue (program w p ts) = [] \<and> depth_queue (program w p ts) = []
       \<and> infrared_queue (program w p ts) = []
       \<and> length (color_files (program w p ts)) =
           (if is_color (opt (program w p ts))
            then length (filter (\<lambda>k. handle (get_color_image k)) (played (program w p ts)))
            else 0)
       \<and> length (depth_files (program w p ts)) =
           (if is_depth (opt (program w p ts))
            then length (filter (\<lambda>k. handle (get_depth_image k)) (played (program w p ts)))
            else 0)
       \<and> length (infrared_files (program w p ts)) =
           (if is_infrared (opt (program w p ts))
            then length (filter (\<lambda>k. handle (get_ir_image k)) (played (program w p ts)))
            else 0)
       \<and> played (program w p ts) @ playback (program w p ts) = playback (main w p)"
proof -
  let ?s = "program w p ts"
  have i: "invariant w ?s" by (rule invariant_program)
  then have "quit_inv ?s" by (simp add: invariant_def)
  with assms have j: "joined (color_thread ?s)" "joined (depth_thread ?s)"
    "joined (infrared_thread ?s)"
    by (simp_all add: quit_inv_def)
  from joined_color [OF i j(1)] joined_depth [OF i j(2)] joined_infrared [OF i j(3)]
    source_program [of w p ts]
  show ?thesis
    by (simp add: length_entries)
qed

theorem writes_after_teardown_witness:
  "length (color_files (program (example_world (color_only [capture_at 7, capture_at 9]) [113])
       example_parser
       [Color_thread, Main_thread, Main_thread, Color_thread, Color_thread, Color_thread,
        Color_thread, Color_thread, Main_thread, Main_thread, Main_thread])) = 1
   \<and> played (program (example_world (color_only [capture_at 7, capture_at 9]) [113])
       example_parser
       [Color_thread, Main_thread, Main_thread, Color_thread, Color_thread, Color_thread,
        Color_thread, Color_thread, Main_thread, Main_thread, Main_thread]) = [capture_at 7]"
proof -
  let ?s = "program (example_world (color_only [capture_at 7, capture_at 9]) [113])
       example_parser
       [Color_thread, Main_thread, Main_thread, Color_thread, Color_thread, Color_thread,
        Color_thread, Color_thread, Main_thread, Main_thread, Main_thread]"
  have s: "main_thread ?s = Returned" "played ?s = [capture_at 7]" "is_color (opt ?s)"
    by (simp_all add: start_defs run_defs example_defs)
  from writes_after_teardown [OF s(1)] s(2,3) show ?thesis
    by (simp add: capture_at_def image_def)
qed

text \<open>
  The claim as stated counts the frames in the source. A recording of two captures with
  colour images, the quit key pressed in the first turn: the run completes, \<^verbatim>\<open>main\<close>
  returns, one colour file has been written, and the source holds two frames with a
  colour image.
\<close>

theorem file_count_counterexample:
  "main_thread (program (example_world (color_only [capture_at 7, capture_at 9]) [113])
       example_parser
       [Color_thread, Main_thread, Main_thread, Color_thread, Color_thread, Color_thread,
        Color_thread, Color_thread, Main_thread, Main_thread, Main_thread]) = Returned
   \<and> map (\<lambda>f. snd (snd f))
       (color_files (program (example_world (color_only [capture_at 7, capture_at 9]) [113])
          example_parser
          [Color_thread, Main_thread, Main_thread, Color_thread, Color_thread, Color_thread,
           Color_thread, Color_thread, Main_thread, Main_thread, Main_thread])) = [Written]
   \<and> length (filter (\<lambda>k. handle (get_color_image k))
        (captures (color_only [capture_at 7, capture_at 9]))) = 2"
  by (simp add: start_defs run_defs example_defs)

section \<open>The order of the files\<close>

text \<open>
  C5. Within each image kind the files are written in the order the source emitted the
  images. Of the files written (the writes that ended well), in the order written, the
  sequence numbers strictly increase and the timestamps do not decrease. The counter
  starts at 0 and goes up by one with each write: the sequence numbers of the writes made
  are 0, 1, 2, ..., and their timestamps are the timestamps of the first images of the
  kind in the recording, in the order of the recording. The device clock of the
  recording is taken not to go back (as the data model has it), and the recording to
  hold at most \<open>2^64\<close> captures, the range of the \<^verbatim>\<open>uint64_t\<close> counter.
\<close>

theorem files_in_emission_order:
  assumes "device_clock_ascends (playback (main w p))"
    and "length (playback (main w p)) \<le> 2 ^ 64"
  shows "(sorted_wrt (<) (map (\<lambda>n. unat (sequence n)) (color_names (program w p ts)))
          \<and> sorted (map timestamp (color_names (program w p ts)))
          \<and> map (\<lambda>f. sequence (fst f)) (color_files (program w p ts))
              = map of_nat [0..<length (color_files (program w p ts))]
          \<and> map (\<lambda>f. timestamp (fst f)) (color_files (program w p ts))
              = take (length (color_files (program w p ts)))
                  (map (\<lambda>k. device_timestamp (get_color_image k))
                     (filter (\<lambda>k. handle (get_color_image k)) (playback (main w p)))))
       \<and> (sorted_wrt (<) (map (\<lambda>n. unat (sequence n)) (depth_names (program w p ts)))
          \<and> sorted (map timestamp (depth_names (program w p ts)))
          \<and> map (\<lambda>f. sequence (fst f)) (depth_files (program w p ts))
              = map of_nat [0..<length (depth_files (program w p ts))]
          \<and> map (\<lambda>f. timestamp (fst f)) (depth_files (program w p ts))
              = take (length (depth_files (program w p ts)))
                  (map (\<lambda>k. device_timestamp (get_depth_image k))
                     (filter (\<lambda>k. handle (get_depth_image k)) (playback (main w p)))))
       \<and> (sorted_wrt (<) (map (\<lambda>n. unat (sequence n)) (infrared_names (program w p ts)))
          \<and> sorted (map timestamp (infrared_names (program w p ts)))
          \<and> map (\<lambda>f. sequence (fst f)) (infrared_files (program w p ts))
              = map of_nat [0..<length (infrared_files (program w p ts))]
          \<and> map (\<lambda>f. timestamp (fst f)) (infrared_files (program w p ts))
              = take (length (infrared_files (program w p ts)))
                  (map (\<lambda>k. device_timestamp (get_ir_image k))
                     (filter (\<lambda>k. handle (get_ir_image k)) (playback (main w p)))))"
proof -
  let ?s = "program w p ts"
  have "invariant w ?s" by (rule invariant_program)
  then have c: "color_inv w ?s" and d: "depth_inv w ?s" and i: "infrared_inv w ?s"
    by (simp_all add: invariant_def)
  note a = source_program [of w p ts]
  note co = color_order [OF c a] and do = depth_order [OF d a] and io = infrared_order [OF i a]
  note cn = color_file_names(1) [OF c] and dn = depth_file_names(1) [OF d]
    and inn = infrared_file_names(1) [OF i]
  from assms(1) have
    sc: "sorted (map (\<lambda>k. device_timestamp (get_color_image k))
                (filter (\<lambda>k. handle (get_color_image k)) (playback (main w p))))"
    and sd: "sorted (map (\<lambda>k. device_timestamp (get_depth_image k))
                (filter (\<lambda>k. handle (get_depth_image k)) (playback (main w p))))"
    and si: "sorted (map (\<lambda>k. device_timestamp (get_ir_image k))
                (filter (\<lambda>k. handle (get_ir_image k)) (playback (main w p))))"
    by (simp_all add: device_clock_ascends_def)
  from co(2) do(2) io(2) assms(2) have
    lc: "length (color_files ?s) \<le> 2 ^ 64" and ld: "length (depth_files ?s) \<le> 2 ^ 64"
    and li: "length (infrared_files ?s) \<le> 2 ^ 64"
    by simp_all
  have "sorted_wrt (<) (map (\<lambda>n. unat (sequence n)) (color_names ?s))"
    unfolding color_names_def by (rule names_ascend [OF cn lc])
  moreover have "sorted (map timestamp (color_names ?s))"
    unfolding color_names_def by (rule stamps_ascend [OF co(1) sc])
  moreover have "sorted_wrt (<) (map (\<lambda>n. unat (sequence n)) (depth_names ?s))"
    unfolding depth_names_def by (rule names_ascend [OF dn ld])
  moreover have "sorted (map timestamp (depth_names ?s))"
    unfolding depth_names_def by (rule stamps_ascend [OF do(1) sd])
  moreover have "sorted_wrt (<) (map (\<lambda>n. unat (sequence n)) (infrared_names ?s))"
    unfolding infrared_names_def by (rule names_ascend [OF inn li])
  moreover have "sorted (map timestamp (infrared_names ?s))"
    unfolding infrared_names_def by (rule stamps_ascend [OF io(1) si])
  ultimately show ?thesis
    using cn dn inn co(1) do(1) io(1) by simp
qed

theorem files_in_emission_order_witness:
  "sorted_wrt (<) (map (\<lambda>n. unat (sequence n))
       (color_names (program (example_world (color_only [capture_at 7, capture_at 9]) [])
          example_parser
          [Color_thread, Main_thread, Main_thread, Color_thread, Color_thread, Color_thread,
           Color_thread])))
   \<and> color_names (program (example_world (color_only [capture_at 7, capture_at 9]) [])
          example_parser
          [Color_thread, Main_thread, Main_thread, Color_thread, Color_thread, Color_thread,
           Color_thread])
      = [\<lparr>folder = ''/data/session/color'', sequence = 0, timestamp = 7, extension = ''jpg''\<rparr>,
         \<lparr>folder = ''/data/session/color'', sequence = 1, timestamp = 9, extension = ''jpg''\<rparr>]"
proof -
  let ?w = "example_world (color_only [capture_at 7, capture_at 9]) []"
  have "playback (main ?w example_parser) = [capture_at 7, capture_at 9]"
    by (simp add: start_defs example_defs)
  then have h: "device_clock_ascends (playback (main ?w example_parser))"
    "length (playback (main ?w example_parser)) \<le> 2 ^ 64"
    by (simp_all add: device_clock_ascends_def capture_at_def image_def)
  have "color_names (program ?w example_parser
          [Color_thread, Main_thread, Main_thread, Color_thread, Color_thread, Color_thread,
           Color_thread])
      = [\<lparr>folder = ''/data/session/color'', sequence = 0, timestamp = 7, extension = ''jpg''\<rparr>,
         \<lparr>folder = ''/data/session/color'', sequence = 1, timestamp = 9, extension = ''jpg''\<rparr>]"
    by (simp add: color_names_def start_defs run_defs example_defs)
  with files_in_emission_order [OF h, of "[Color_thread, Main_thread, Main_thread, Color_thread,
      Color_thread, Color_thread, Color_thread]"]
  show ?thesis by simp
qed

section \<open>The transformed depth image\<close>




section \<open>The depth image written\<close>

text \<open>
  C7. For every dequeued depth entry the image written is the 16-bit raster over the
  buffer of the entry, rescaled to 8 bits by the affine mapping
  \<open>pixel * (-255/5000) + 255\<close> when the scaling flag is enabled, and that raster
  unchanged when the flag is disabled: in every state of every run, the images of the
  depth writes are, in order, \<open>rescaled_or_raw\<close> of the rasters over the buffers of the
  entries dequeued so far.
\<close>

theorem depth_image_scaled_or_raw:
  "\<exists>h v. map (\<lambda>f. fst (snd f)) (depth_files (program w p ts)) =
           map (\<lambda>e. rescaled_or_raw w (is_scaling (opt (program w p ts)))
                  \<lparr>rows = h, cols = v, data = CV_16UC1 (fst e)\<rparr>)
             (take (length (depth_files (program w p ts)))
                (depth_entries w (opt (program w p ts)) (played (program w p ts))))"
proof -
  have "invariant w (program w p ts)" by (rule invariant_program)
  then have "depth_inv w (program w p ts)" by (simp add: invariant_def)
  from depth_file_rasters [OF this] show ?thesis by blast
qed

theorem depth_image_scaled_or_raw_witness:
  "(\<exists>h v. map (\<lambda>f. fst (snd f))
       (depth_files (program (example_world (recording [capture_at 7]) [])
          (example_parser\<lparr>get_scaling := True\<rparr>)
          [Depth_thread, Main_thread, Depth_thread, Depth_thread])) =
     map (\<lambda>e. rescaled_or_raw (example_world (recording [capture_at 7]) []) True
                  \<lparr>rows = h, cols = v, data = CV_16UC1 (fst e)\<rparr>)
       [([1000, 2000], 7::int)])
   \<and> map (\<lambda>f. fst (snd f))
     (depth_files (program (example_world (recording [capture_at 7]) [])
        (example_parser\<lparr>get_scaling := True\<rparr>)
        [Depth_thread, Main_thread, Depth_thread, Depth_thread]))
     = [\<lparr>rows = 1, cols = 2, data = CV_8U [204, 153]\<rparr>]
   \<and> map (\<lambda>f. fst (snd f))
     (depth_files (program (example_world (recording [capture_at 7]) []) example_parser
        [Depth_thread, Main_thread, Depth_thread, Depth_thread]))
     = [\<lparr>rows = 1, cols = 2, data = CV_16UC1 [1000, 2000]\<rparr>]"
proof -
  let ?w = "example_world (recording [capture_at 7]) []"
  let ?ts = "[Depth_thread, Main_thread, Depth_thread, Depth_thread]"
  let ?s = "program ?w (example_parser\<lparr>get_scaling := True\<rparr>) ?ts"
  let ?r = "program ?w example_parser ?ts"
  have s: "length (depth_files ?s) = 1" "is_scaling (opt ?s)"
    "depth_entries ?w (opt ?s) (played ?s) = [([1000, 2000], 7)]"
    by (simp_all add: start_defs run_defs example_defs depth_entries_def)
  have i: "map (\<lambda>f. fst (snd f)) (depth_files ?s)
        = [\<lparr>rows = 1, cols = 2, data = CV_8U [204, 153]\<rparr>]"
    by (simp add: start_defs run_defs example_defs example_convertTo_depth)
  have j: "map (\<lambda>f. fst (snd f)) (depth_files ?r)
        = [\<lparr>rows = 1, cols = 2, data = CV_16UC1 [1000, 2000]\<rparr>]"
    by (simp add: start_defs run_defs example_defs)
  from depth_image_scaled_or_raw [of ?w "example_parser\<lparr>get_scaling := True\<rparr>" ?ts]
  have "\<exists>h v. map (\<lambda>f. fst (snd f)) (depth_files ?s) =
     map (\<lambda>e. rescaled_or_raw ?w True \<lparr>rows = h, cols = v, data = CV_16UC1 (fst e)\<rparr>)
       [([1000, 2000], 7::int)]"
    by (simp only: s take_all order_refl length_Cons list.size One_nat_def)
  with i j show ?thesis by simp
qed

section \<open>The encode quality\<close>

text \<open>
  C9. The encode quality is an integer from 0 to 100, 95 when the key has no value, and a
  value \<open>q\<close> read from the command line becomes \<open>min (max 0 q) 100\<close>: when the
  parameters are read without an exception and without the help exit, \<^verbatim>\<open>params\<close> is the
  JPEG quality key followed by that value.
\<close>

theorem quality_clamped:
  assumes "initialize_parameter w p (process0 w) = (None, s)" and "status s = Running"
  shows "\<exists>q. params (opt s) = [IMWRITE_JPEG_QUALITY, q] \<and> 0 \<le> q \<and> q \<le> 100
           \<and> q = (if has_quality p then min (max 0 (get_quality p)) 100 else 95)"
  using assms
  by (auto simp: initialize_parameter_def clamp_quality_def process0_def split: if_splits)

theorem quality_clamped_witness:
  "params (opt (snd (initialize_parameter (example_world (recording []) [])
       (example_parser\<lparr>get_quality := 150\<rparr>) (process0 (example_world (recording []) [])))))
     = [IMWRITE_JPEG_QUALITY, 100]
   \<and> params (opt (snd (initialize_parameter (example_world (recording []) [])
       (example_parser\<lparr>get_quality := - 5\<rparr>) (process0 (example_world (recording []) [])))))
     = [IMWRITE_JPEG_QUALITY, 0]
   \<and> params (opt (snd (initialize_parameter (example_world (recording []) [])
       (example_parser\<lparr>has_quality := False\<rparr>) (process0 (example_world (recording []) [])))))
     = [IMWRITE_JPEG_QUALITY, 95]"
proof -
  let ?w = "example_world (recording []) []"
  have ok: "fst (initialize_parameter ?w (example_parser\<lparr>get_quality := q\<rparr>) (process0 ?w)) = None
    \<and> status (snd (initialize_parameter ?w (example_parser\<lparr>get_quality := q\<rparr>) (process0 ?w))) = Running"
    for q
    by (simp add: initialize_parameter_def example_parser_def example_world_def process0_def)
  have ok': "fst (initialize_parameter ?w (example_parser\<lparr>has_quality := False\<rparr>) (process0 ?w)) = None
    \<and> status (snd (initialize_parameter ?w (example_parser\<lparr>has_quality := False\<rparr>) (process0 ?w))) = Running"
    by (simp add: initialize_parameter_def example_parser_def example_world_def process0_def)
  have a: "\<exists>q. params (opt (snd (initialize_parameter ?w (example_parser\<lparr>get_quality := 150\<rparr>) (process0 ?w))))
            = [IMWRITE_JPEG_QUALITY, q] \<and> 0 \<le> q \<and> q \<le> 100
          \<and> q = (if has_quality (example_parser\<lparr>get_quality := 150\<rparr>)
                 then min (max 0 (get_quality (example_parser\<lparr>get_quality := 150\<rparr>))) 100 else 95)"
    by (rule quality_clamped [where w = ?w]) (simp_all add: ok prod_eq_iff)
  have b: "\<exists>q. params (opt (snd (initialize_parameter ?w (example_parser\<lparr>get_quality := - 5\<rparr>) (process0 ?w))))
            = [IMWRITE_JPEG_QUALITY, q] \<and> 0 \<le> q \<and> q \<le> 100
          \<and> q = (if has_quality (example_parser\<lparr>get_quality := - 5\<rparr>)
                 then min (max 0 (get_quality (example_parser\<lparr>get_quality := - 5\<rparr>))) 100 else 95)"
    by (rule quality_clamped [where w = ?w]) (simp_all add: ok prod_eq_iff)
  have c: "\<exists>q. params (opt (snd (initialize_parameter ?w (example_parser\<lparr>has_quality := False\<rparr>) (process0 ?w))))
            = [IMWRITE_JPEG_QUALITY, q] \<and> 0 \<le> q \<and> q \<le> 100
          \<and> q = (if has_quality (example_parser\<lparr>has_quality := False\<rparr>)
                 then min (max 0 (get_quality (example_parser\<lparr>has_quality := False\<rparr>))) 100 else 95)"
    by (rule quality_clamped [where w = ?w]) (simp_all add: ok' prod_eq_iff)
  from a b c show ?thesis
    by (simp add: example_parser_def)
qed

section \<open>The size of the depth raster\<close>

text \<open>
  C10. The depth exporter reads every dequeued buffer as a 16-bit raster whose width and
  height are the resolution of the colour camera of the calibration when the transform
  flag is enabled, and that of the depth camera otherwise. The choice is made once, when
  the thread starts, from the options, which no step changes: in every state of every
  run the options are those the constructor left, the locals \<^verbatim>\<open>width\<close> and \<^verbatim>\<open>height\<close> of a
  running depth exporter have these values, and every image the exporter has written is
  (the rescaling of, C7) a 16-bit raster of that size.
\<close>

theorem depth_raster_size:
  "opt (program w p ts) = opt (main w p)
   \<and> (\<forall>l. depth_thread (program w p ts) = At_while l
          \<or> depth_thread (program w p ts) = At_empty l
          \<or> depth_thread (program w p ts) = At_pop l \<longrightarrow>
          width l = (if is_transform (opt (main w p))
                     then color_resolution_width (calibration (opt (main w p)))
                     else depth_resolution_width (calibration (opt (main w p))))
          \<and> height l = (if is_transform (opt (main w p))
                        then color_resolution_height (calibration (opt (main w p)))
                        else depth_resolution_height (calibration (opt (main w p)))))
   \<and> (\<forall>f \<in> set (depth_files (program w p ts)).
         \<exists>b. fst (snd f) =
           rescaled_or_raw w (is_scaling (opt (main w p)))
             \<lparr>rows = (if is_transform (opt (main w p))
                      then color_resolution_height (calibration (opt (main w p)))
                      else depth_resolution_height (calibration (opt (main w p)))),
              cols = (if is_transform (opt (main w p))
                      then color_resolution_width (calibration (opt (main w p)))
                      else depth_resolution_width (calibration (opt (main w p)))),
              data = CV_16UC1 b\<rparr>)"
proof (intro conjI allI impI ballI)
  let ?s = "program w p ts"
  have "invariant w ?s" by (rule invariant_program)
  then have d: "depth_inv w ?s" by (simp add: invariant_def)
  show o: "opt ?s = opt (main w p)" by (rule opt_program)
  {
    fix l
    assume "depth_thread ?s = At_while l \<or> depth_thread ?s = At_empty l
          \<or> depth_thread ?s = At_pop l"
    with d have "l = depth_locals (opt ?s) (length (depth_files ?s))"
      by (auto simp: depth_inv_def)
    then show "width l = (if is_transform (opt (main w p))
                     then color_resolution_width (calibration (opt (main w p)))
                     else depth_resolution_width (calibration (opt (main w p))))"
      and "height l = (if is_transform (opt (main w p))
                        then color_resolution_height (calibration (opt (main w p)))
                        else depth_resolution_height (calibration (opt (main w p))))"
      by (simp_all add: depth_locals_def o)
  }
  fix f assume "f \<in> set (depth_files ?s)"
  then have "fst (snd f) \<in> set (map (\<lambda>f. fst (snd f)) (depth_files ?s))"
    by simp
  then obtain e where "fst (snd f) = rescaled_or_raw w (is_scaling (opt ?s))
                  \<lparr>rows = height (depth_locals (opt ?s) 0), cols = width (depth_locals (opt ?s) 0),
                   data = CV_16UC1 (fst e)\<rparr>"
    unfolding depth_file_rasters [OF d] by auto
  then show "\<exists>b. fst (snd f) =
           rescaled_or_raw w (is_scaling (opt (main w p)))
             \<lparr>rows = (if is_transform (opt (main w p))
                      then color_resolution_height (calibration (opt (main w p)))
                      else depth_resolution_height (calibration (opt (main w p)))),
              cols = (if is_transform (opt (main w p))
                      then color_resolution_width (calibration (opt (main w p)))
                      else depth_resolution_width (calibration (opt (main w p)))),
              data = CV_16UC1 b\<rparr>"
    by (auto simp: depth_locals_def o)
qed

theorem depth_raster_size_witness:
  "map (\<lambda>f. fst (snd f))
     (depth_files (program (example_world (recording [capture_at 7]) [])
        (example_parser\<lparr>get_transform := True\<rparr>)
        [Depth_thread, Main_thread, Depth_thread, Depth_thread]))
     = [\<lparr>rows = 2, cols = 3, data = CV_16UC1 [1000, 2000, 1000, 2000, 1000, 2000]\<rparr>]
   \<and> depth_thread (program (example_world (recording [capture_at 7]) [])
        (example_parser\<lparr>get_transform := True\<rparr>)
        [Depth_thread, Main_thread, Depth_thread, Depth_thread])
     = At_while \<lparr>index = 1, width = 3, height = 2\<rparr>
   \<and> map (\<lambda>f. fst (snd f))
     (depth_files (program (example_world (recording [capture_at 7]) []) example_parser
        [Depth_thread, Main_thread, Depth_thread, Depth_thread]))
     = [\<lparr>rows = 1, cols = 2, data = CV_16UC1 [1000, 2000]\<rparr>]"
proof -
  let ?w = "example_world (recording [capture_at 7]) []"
  let ?p = "example_parser\<lparr>get_transform := True\<rparr>"
  let ?ts = "[Depth_thread, Main_thread, Depth_thread, Depth_thread]"
  have t: "depth_thread (program ?w ?p ?ts) = At_while \<lparr>index = 1, width = 3, height = 2\<rparr>"
    by (simp add: start_defs run_defs example_defs)
  have f: "map (\<lambda>f. fst (snd f)) (depth_files (program ?w ?p ?ts))
     = [\<lparr>rows = 2, cols = 3, data = CV_16UC1 [1000, 2000, 1000, 2000, 1000, 2000]\<rparr>]"
    "map (\<lambda>f. fst (snd f)) (depth_files (program ?w example_parser ?ts))
     = [\<lparr>rows = 1, cols = 2, data = CV_16UC1 [1000, 2000]\<rparr>]"
    by (simp_all add: start_defs run_defs example_defs)
  from depth_raster_size [of ?w ?p ?ts] t f show ?thesis
    by simp
qed

end
